theory Spec2Isabelle
  imports Main "HOL-Library.Word" "HOL-Library.Monad_Syntax"
begin

section \<open>The reaction game sketch (reactionGame.ino)\<close>

text \<open>
  The sketch is a single thread of control that reads two push buttons, the millisecond
  clock and a random source, and writes to three LEDs, a character display and the serial
  line. The embedding threads one record through every function: the sketch's global
  variables, the inputs the hardware will deliver (as lists that the reading primitives
  consume from the front) and the outputs produced so far (a chronological event list).
  A function that needs an input when the list is empty returns \<open>None\<close>: the run has not
  come that far with the inputs given.
\<close>

subsection \<open>Outputs\<close>

datatype event =
    SerialPrint string
  | SerialPrintln string
  | LcdInit
  | LcdBacklight
  | LcdClear
  | LcdSetCursor int int
  | LcdPrint string
  | DigitalWrite int bool
  | Delay nat
  | SerialBegin nat
  | PinMode int bool

subsection \<open>Global variables, inputs and outputs\<close>

text \<open>
  \<open>int\<close> variables of the sketch are modelled as unbounded integers: between
  \<open>startNewGame\<close> and \<open>endGame\<close> none of them leaves the range 0..5.
  \<open>unsigned long\<close> is a 32-bit word, so the subtraction of two clock readings wraps as
  it does on the board. A sample of \<open>pinReads\<close> holds the levels of the two button
  pins (button1Pin, button2Pin) at one call of digitalRead.
\<close>

record world =
  player1Score :: int
  player2Score :: int
  roundCount :: int
  gameActive :: bool
  lastButton1State :: bool
  lastButton2State :: bool
  button1Pressed :: bool
  button2Pressed :: bool
  lastSerialPrint :: "32 word"
  pinReads :: "(bool \<times> bool) list"
  clock :: "32 word list"
  randoms :: "nat list"
  trace :: "event list"

definition button1Pin :: int where "button1Pin = 2"
definition button2Pin :: int where "button2Pin = 4"
definition ledPins :: "int list" where "ledPins = [7, 8, 9]"
definition numLeds :: nat where "numLeds = 3"
definition maxRounds :: int where "maxRounds = 5"
definition debounceDelay :: nat where "debounceDelay = 50"
definition serialPrintInterval :: "32 word" where "serialPrintInterval = 100"

abbreviation HIGH :: bool where "HIGH \<equiv> True"
abbreviation LOW :: bool where "LOW \<equiv> False"

subsection \<open>Hardware primitives\<close>

definition emit :: "event \<Rightarrow> world \<Rightarrow> world" where
  "emit e w = w\<lparr>trace := trace w @ [e]\<rparr>"

definition delay :: "nat \<Rightarrow> world \<Rightarrow> world" where
  "delay n w = emit (Delay n) w"

definition digitalWrite :: "int \<Rightarrow> bool \<Rightarrow> world \<Rightarrow> world" where
  "digitalWrite pin v w = emit (DigitalWrite pin v) w"

text \<open>The sketch reads the two button pins only; any other pin reads LOW here.\<close>

definition level :: "int \<Rightarrow> bool \<times> bool \<Rightarrow> bool" where
  "level pin s = (if pin = button1Pin then fst s else if pin = button2Pin then snd s else LOW)"

definition digitalRead :: "int \<Rightarrow> world \<Rightarrow> (bool \<times> world) option" where
  "digitalRead pin w =
     (case pinReads w of
        [] \<Rightarrow> None
      | s # rest \<Rightarrow> Some (level pin s, w\<lparr>pinReads := rest\<rparr>))"

definition millis :: "world \<Rightarrow> (32 word \<times> world) option" where
  "millis w =
     (case clock w of
        [] \<Rightarrow> None
      | t # rest \<Rightarrow> Some (t, w\<lparr>clock := rest\<rparr>))"

text \<open>
  \<open>random(howsmall, howbig)\<close> of the Arduino core: \<open>howsmall\<close> when the range is empty,
  otherwise \<open>howsmall + r % (howbig - howsmall)\<close> for the next raw value \<open>r\<close> of the
  generator.
\<close>

definition random :: "int \<Rightarrow> int \<Rightarrow> world \<Rightarrow> (int \<times> world) option" where
  "random howsmall howbig w =
     (if howsmall \<ge> howbig then Some (howsmall, w)
      else case randoms w of
             [] \<Rightarrow> None
           | r # rest \<Rightarrow> Some (howsmall + int r mod (howbig - howsmall), w\<lparr>randoms := rest\<rparr>))"

subsection \<open>String(int)\<close>

definition digitChar :: "nat \<Rightarrow> char" where
  "digitChar d = char_of (48 + d)"

fun natDigits :: "nat \<Rightarrow> string" where
  "natDigits n = (if n < 10 then [digitChar n] else natDigits (n div 10) @ [digitChar (n mod 10)])"

definition String_int :: "int \<Rightarrow> string" where
  "String_int i = (if i < 0 then CHR ''-'' # natDigits (nat (- i)) else natDigits (nat i))"

subsection \<open>Display helpers\<close>

text \<open>
  updateDisplay (lines 218-228). Every message of the sketch has at most 16 characters, so
  the unsigned subtraction in the padding does not wrap.
\<close>

definition updateDisplay :: "string \<Rightarrow> world \<Rightarrow> world" where
  "updateDisplay message w =
     (let padding = (16 - int (length message)) div 2 in
      emit (SerialPrintln (''LCD Update: '' @ message))
        (emit (LcdPrint message)
          (emit (LcdSetCursor padding 0)
            (emit LcdClear (emit LcdBacklight (emit LcdInit w))))))"

text \<open>displayScores (lines 230-238).\<close>

definition displayScores :: "world \<Rightarrow> world" where
  "displayScores w =
     emit (SerialPrintln (''LCD Scores: P1:'' @ String_int (player1Score w) @ '' P2:''
                          @ String_int (player2Score w)))
       (emit (LcdPrint (String_int (player2Score w)))
         (emit (LcdPrint ''P2:'')
           (emit (LcdSetCursor 8 1)
             (emit (LcdPrint (String_int (player1Score w)))
               (emit (LcdPrint ''P1:'')
                 (emit (LcdSetCursor 0 1) w))))))"

subsection \<open>Debouncer\<close>

text \<open>
  debounceButton (lines 85-104). The two reference parameters are passed in as values and
  handed back with the result: the triple is (returned value, lastState, pressedFlag).
\<close>

definition debounceButton ::
    "int \<Rightarrow> bool \<Rightarrow> bool \<Rightarrow> world \<Rightarrow> ((bool \<times> bool \<times> bool) \<times> world) option" where
  "debounceButton pin lastState pressedFlag w = do {
     (reading, w1) \<leftarrow> digitalRead pin w;
     if reading \<noteq> lastState then do {
       (reading2, w2) \<leftarrow> digitalRead pin (delay debounceDelay w1);
       if reading2 \<noteq> lastState then
         (let state = reading2;
              pressedFlag' = (if state = HIGH then True else pressedFlag)
          in Some ((pressedFlag', state, pressedFlag'), w2))
       else Some ((pressedFlag, lastState, pressedFlag), w2)
     } else Some ((pressedFlag, lastState, pressedFlag), w1)
   }"

text \<open>The two call shapes of the sketch, with the references written back.\<close>

definition debounceButton1 :: "world \<Rightarrow> (bool \<times> world) option" where
  "debounceButton1 w = do {
     ((r, ls, pf), w1) \<leftarrow> debounceButton button1Pin (lastButton1State w) (button1Pressed w) w;
     Some (r, w1\<lparr>lastButton1State := ls, button1Pressed := pf\<rparr>)
   }"

definition debounceButton2 :: "world \<Rightarrow> (bool \<times> world) option" where
  "debounceButton2 w = do {
     ((r, ls, pf), w1) \<leftarrow> debounceButton button2Pin (lastButton2State w) (button2Pressed w) w;
     Some (r, w1\<lparr>lastButton2State := ls, button2Pressed := pf\<rparr>)
   }"

text \<open>
  The rate-limited report of the two button values, written three times in the sketch
  (lines 59-66, 144-151, 187-194) with a different label.
\<close>

definition serialReport :: "string \<Rightarrow> bool \<Rightarrow> bool \<Rightarrow> world \<Rightarrow> world option" where
  "serialReport label button1State button2State w = do {
     (now, w1) \<leftarrow> millis w;
     if now - lastSerialPrint w1 \<ge> serialPrintInterval then do {
       (t, w2) \<leftarrow> millis
          (emit (SerialPrintln [])
            (emit (SerialPrint (if button2State then ''1'' else ''0''))
              (emit (SerialPrint '' | P2: '')
                (emit (SerialPrint (if button1State then ''1'' else ''0''))
                  (emit (SerialPrint label) w1)))));
       Some (w2\<lparr>lastSerialPrint := t\<rparr>)
     } else Some w1
   }"

subsection \<open>Frame facts of the input primitives\<close>

lemma millis_SomeD:
  "millis w = Some (t, w') \<Longrightarrow> \<exists>rest. clock w = t # rest \<and> w' = w\<lparr>clock := rest\<rparr>"
  by (auto simp: millis_def split: list.splits)

lemma digitalRead_SomeD:
  "digitalRead pin w = Some (r, w') \<Longrightarrow>
     \<exists>s rest. pinReads w = s # rest \<and> r = level pin s \<and> w' = w\<lparr>pinReads := rest\<rparr>"
  by (auto simp: digitalRead_def split: list.splits)

lemma random_SomeD:
  "random lo hi w = Some (r, w') \<Longrightarrow>
     w' = w \<or> (\<exists>rest x. randoms w = x # rest \<and> w' = w\<lparr>randoms := rest\<rparr>)"
  by (auto simp: random_def split: list.splits if_splits)

lemma debounceButton_clock:
  "debounceButton pin ls pf w = Some (r, w') \<Longrightarrow> clock w' = clock w"
  by (auto simp: debounceButton_def delay_def emit_def Let_def
           split: bind_splits if_splits dest!: digitalRead_SomeD)

lemma debounceButton1_clock: "debounceButton1 w = Some (r, w') \<Longrightarrow> clock w' = clock w"
  by (auto simp: debounceButton1_def split: bind_splits dest!: debounceButton_clock)

lemma debounceButton2_clock: "debounceButton2 w = Some (r, w') \<Longrightarrow> clock w' = clock w"
  by (auto simp: debounceButton2_def split: bind_splits dest!: debounceButton_clock)

lemma serialReport_clock:
  "serialReport l a b w = Some w' \<Longrightarrow> length (clock w') < length (clock w)"
  by (auto simp: serialReport_def emit_def split: bind_splits if_splits dest!: millis_SomeD)

subsection \<open>Round engine\<close>

text \<open>
  The four scoring branches of playRound. The sketch has no type for them; the names are
  those of the specification's RoundOutcome.
\<close>

datatype outcome = Player1EarlyPress | Player2EarlyPress | Player1Reacted | Player2Reacted

text \<open>Lines 154-160: player 1 pressed during the countdown, up to the recursive call.\<close>

definition player1Early :: "world \<Rightarrow> world" where
  "player1Early w =
     (let w1 = w\<lparr>player2Score := player2Score w + 1\<rparr>;
          w2 = displayScores (updateDisplay ''Player 1 Early'' w1);
          w3 = emit (SerialPrintln ''Player 1 pressed too early - P2 wins round'') w2;
          w4 = delay 2000 w3
      in w4\<lparr>button1Pressed := False, button2Pressed := False\<rparr>)"

text \<open>Lines 165-171: player 2 pressed during the countdown, up to the recursive call.\<close>

definition player2Early :: "world \<Rightarrow> world" where
  "player2Early w =
     (let w1 = w\<lparr>player1Score := player1Score w + 1\<rparr>;
          w2 = displayScores (updateDisplay ''Player 2 Early'' w1);
          w3 = emit (SerialPrintln ''Player 2 pressed too early - P1 wins round'') w2;
          w4 = delay 2000 w3
      in w4\<lparr>button1Pressed := False, button2Pressed := False\<rparr>)"

text \<open>Lines 197-201 and 204-208: the two branches that declare the winner of a round.\<close>

definition player1Won :: "world \<Rightarrow> world" where
  "player1Won w =
     (let w1 = w\<lparr>player1Score := player1Score w + 1\<rparr>;
          w2 = displayScores (updateDisplay ''Player 1 Won'' w1)
      in emit (SerialPrintln (''Player 1 wins round '' @ String_int (roundCount w2))) w2)"

definition player2Won :: "world \<Rightarrow> world" where
  "player2Won w =
     (let w1 = w\<lparr>player2Score := player2Score w + 1\<rparr>;
          w2 = displayScores (updateDisplay ''Player 2 Won'' w1)
      in emit (SerialPrintln (''Player 2 wins round '' @ String_int (roundCount w2))) w2)"

text \<open>
  The while loop of lines 138-175 for LED \<open>i\<close>. It ends with \<open>None\<close> when the hold time has
  elapsed, and with the outcome when a button value was set at a poll; the early-press
  branch has then run up to its recursive call of playRound.
\<close>

function holdLoop :: "nat \<Rightarrow> 32 word \<Rightarrow> 32 word \<Rightarrow> world \<Rightarrow> (outcome option \<times> world) option" where
  "holdLoop i startTime delayTime w = do {
     (now, w1) \<leftarrow> millis w;
     if now - startTime < delayTime then do {
       (button1State, w2) \<leftarrow> debounceButton1 w1;
       (button2State, w3) \<leftarrow> debounceButton2 w2;
       w4 \<leftarrow> serialReport (''Countdown LED '' @ String_int (int i + 1) @ '' - P1: '')
               button1State button2State w3;
       if button1State then Some (Some Player1EarlyPress, player1Early w4)
       else if button2State then Some (Some Player2EarlyPress, player2Early w4)
       else holdLoop i startTime delayTime w4
     } else Some (None, w1)
   }"
  by pat_completeness auto
termination
proof (relation "measure (\<lambda>(i, startTime, delayTime, w). length (clock w))")
  show "wf (measure (\<lambda>(i, startTime, delayTime, w). length (clock w)))" by simp
next
  fix i :: nat and startTime delayTime :: "32 word" and w x2 w1 w2 w3 w4 :: world
    and x now button1State button2State xa xb
  assume m: "millis w = Some x" "(now, w1) = x"
    and d1: "debounceButton1 w1 = Some xa" "(button1State, w2) = xa"
    and d2: "debounceButton2 w2 = Some xb" "(button2State, w3) = xb"
    and sr: "serialReport (''Countdown LED '' @ String_int (int i + 1) @ '' - P1: '')
               button1State button2State w3 = Some w4"
  from m have "length (clock w1) < length (clock w)"
    by (auto dest!: millis_SomeD)
  moreover from d1 have "clock w2 = clock w1"
    by (auto dest: debounceButton1_clock)
  moreover from d2 have "clock w3 = clock w2"
    by (auto dest: debounceButton2_clock)
  moreover from sr have "length (clock w4) < length (clock w3)"
    by (rule serialReport_clock)
  ultimately show "((i, startTime, delayTime, w4), (i, startTime, delayTime, w))
      \<in> measure (\<lambda>(i, startTime, delayTime, w). length (clock w))"
    by simp
qed

declare holdLoop.simps [simp del]

text \<open>The for loop of lines 135-178, from LED \<open>i\<close> on.\<close>

function countdown :: "nat \<Rightarrow> world \<Rightarrow> (outcome option \<times> world) option" where
  "countdown i w =
     (if i < numLeds then do {
        (startTime, w1) \<leftarrow> millis w;
        (delayTime, w2) \<leftarrow> random 500 2001 w1;
        (early, w3) \<leftarrow> holdLoop i startTime (of_int delayTime) w2;
        case early of
          Some out \<Rightarrow> Some (Some out, w3)
        | None \<Rightarrow>
            countdown (i + 1)
              (emit (SerialPrintln (''LED '' @ String_int (int i + 1) @ '' turned off''))
                 (digitalWrite (ledPins ! i) LOW w3))
      } else Some (None, w))"
  by pat_completeness auto
termination
  by (relation "measure (\<lambda>(i, w). numLeds - i)") auto

declare countdown.simps [simp del]

text \<open>The while loop of lines 182-210.\<close>

function reactionLoop :: "world \<Rightarrow> (outcome \<times> world) option" where
  "reactionLoop w = do {
     (button1State, w1) \<leftarrow> debounceButton1 w;
     (button2State, w2) \<leftarrow> debounceButton2 w1;
     w3 \<leftarrow> serialReport ''Reaction Phase - P1: '' button1State button2State w2;
     if button1State then Some (Player1Reacted, player1Won w3)
     else if button2State then Some (Player2Reacted, player2Won w3)
     else reactionLoop w3
   }"
  by pat_completeness auto
termination
proof (relation "measure (\<lambda>w. length (clock w))")
  show "wf (measure (\<lambda>w. length (clock w)))" by simp
next
  fix w w1 w2 w3 :: world and x xa button1State button2State
  assume d1: "debounceButton1 w = Some x" "(button1State, w1) = x"
    and d2: "debounceButton2 w1 = Some xa" "(button2State, w2) = xa"
    and sr: "serialReport ''Reaction Phase - P1: '' button1State button2State w2 = Some w3"
  from d1 have "clock w1 = clock w"
    by (auto dest: debounceButton1_clock)
  moreover from d2 have "clock w2 = clock w1"
    by (auto dest: debounceButton2_clock)
  moreover from sr have "length (clock w3) < length (clock w2)"
    by (rule serialReport_clock)
  ultimately show "(w3, w) \<in> measure (\<lambda>w. length (clock w))"
    by simp
qed

declare reactionLoop.simps [simp del]

text \<open>Lines 124-132: the round is counted and announced, and all LEDs are turned on.\<close>

definition roundStart :: "world \<Rightarrow> world" where
  "roundStart w =
     (let w1 = w\<lparr>roundCount := roundCount w + 1\<rparr>;
          w2 = displayScores (updateDisplay (''Round '' @ String_int (roundCount w1)) w1);
          w3 = emit (SerialPrintln (''Round '' @ String_int (roundCount w2) @ '' started'')) w2
      in fold (\<lambda>i. digitalWrite (ledPins ! i) HIGH) [0..<numLeds] w3)"

text \<open>
  One invocation of playRound past the guard of line 119, up to (and without) its
  recursive call: lines 124-132, the countdown, and, when no button value was set during
  the countdown, the reaction phase and lines 212-214.
\<close>

definition playOneRound :: "world \<Rightarrow> (outcome \<times> world) option" where
  "playOneRound w = do {
     (early, w5) \<leftarrow> countdown 0 (roundStart w);
     case early of
       Some out \<Rightarrow> Some (out, w5)
     | None \<Rightarrow> do {
         (out, w6) \<leftarrow> reactionLoop w5;
         Some (out, (delay 2000 w6)\<lparr>button1Pressed := False, button2Pressed := False\<rparr>)
       }
   }"

subsection \<open>Game controller\<close>

text \<open>The conditional expression of line 243.\<close>

definition finalResult :: "world \<Rightarrow> string" where
  "finalResult w =
     (if player1Score w > player2Score w then ''Player 1 wins!''
      else if player2Score w > player1Score w then ''Player 2 wins!''
      else ''It's a tie!'')"

text \<open>endGame (lines 240-255).\<close>

definition endGame :: "world \<Rightarrow> world" where
  "endGame w =
     (let w1 = displayScores (updateDisplay ''End Game'' w);
          w2 = emit (SerialPrintln (''Game Over - '' @ finalResult w1)) w1;
          w3 = delay 10000 w2;
          w4 = updateDisplay ''Start Game'' w3;
          w5 = emit (LcdPrint ''Press both btns'') (emit (LcdSetCursor 0 1) w4);
          w6 = emit (SerialPrintln ''LCD Reset: Start Game, Press both btns'') w5;
          w7 = w6\<lparr>gameActive := False, button1Pressed := False, button2Pressed := False,
                  lastButton1State := LOW, lastButton2State := LOW\<rparr>
      in emit (SerialPrintln ''Game reset - Press both buttons to start again'') w7)"

subsection \<open>What one call of each step does\<close>

lemma debounceButton_cases:
  assumes "debounceButton pin ls pf w = Some (x, w')"
  obtains s rest where "pinReads w = s # rest" "level pin s = ls" "x = (pf, ls, pf)"
      "w' = w\<lparr>pinReads := rest\<rparr>"
  | s s2 rest where "pinReads w = s # s2 # rest" "level pin s \<noteq> ls" "level pin s2 = ls"
      "x = (pf, ls, pf)"
      "w' = w\<lparr>trace := trace w @ [Delay debounceDelay], pinReads := rest\<rparr>"
  | s s2 rest where "pinReads w = s # s2 # rest" "level pin s \<noteq> ls" "level pin s2 \<noteq> ls"
      "x = (if level pin s2 then True else pf, level pin s2, if level pin s2 then True else pf)"
      "w' = w\<lparr>trace := trace w @ [Delay debounceDelay], pinReads := rest\<rparr>"
  using assms
  by (simp add: debounceButton_def digitalRead_def delay_def emit_def Let_def
           split: list.splits if_splits)

lemma debounceButton_frame:
  "debounceButton pin ls pf w = Some (x, w') \<Longrightarrow>
     player1Score w' = player1Score w \<and> player2Score w' = player2Score w \<and>
     roundCount w' = roundCount w \<and> gameActive w' = gameActive w \<and>
     lastButton1State w' = lastButton1State w \<and> lastButton2State w' = lastButton2State w \<and>
     button1Pressed w' = button1Pressed w \<and> button2Pressed w' = button2Pressed w \<and>
     lastSerialPrint w' = lastSerialPrint w \<and> clock w' = clock w \<and> randoms w' = randoms w"
  by (erule debounceButton_cases) simp_all

lemma debounceButton_result:
  "debounceButton pin ls pf w = Some ((r, ls', pf'), w') \<Longrightarrow> r = pf' \<and> (pf \<longrightarrow> pf')"
  by (erule debounceButton_cases) (simp_all split: if_splits)

lemma debounceButton1_SomeD:
  assumes "debounceButton1 w = Some (r, w')"
  obtains ls w1 where
    "debounceButton button1Pin (lastButton1State w) (button1Pressed w) w = Some ((r, ls, r), w1)"
    "w' = w1\<lparr>lastButton1State := ls, button1Pressed := r\<rparr>"
proof -
  from assms obtain ls pf w1 where
    d: "debounceButton button1Pin (lastButton1State w) (button1Pressed w) w = Some ((r, ls, pf), w1)"
    and w': "w' = w1\<lparr>lastButton1State := ls, button1Pressed := pf\<rparr>"
    by (auto simp: debounceButton1_def split: bind_splits)
  from debounceButton_result [OF d] have "pf = r" by simp
  with d w' that show thesis by simp
qed

lemma debounceButton2_SomeD:
  assumes "debounceButton2 w = Some (r, w')"
  obtains ls w1 where
    "debounceButton button2Pin (lastButton2State w) (button2Pressed w) w = Some ((r, ls, r), w1)"
    "w' = w1\<lparr>lastButton2State := ls, button2Pressed := r\<rparr>"
proof -
  from assms obtain ls pf w1 where
    d: "debounceButton button2Pin (lastButton2State w) (button2Pressed w) w = Some ((r, ls, pf), w1)"
    and w': "w' = w1\<lparr>lastButton2State := ls, button2Pressed := pf\<rparr>"
    by (auto simp: debounceButton2_def split: bind_splits)
  from debounceButton_result [OF d] have "pf = r" by simp
  with d w' that show thesis by simp
qed

lemma debounceButton1_frame:
  assumes "debounceButton1 w = Some (r, w')"
  shows "player1Score w' = player1Score w \<and> player2Score w' = player2Score w \<and>
     roundCount w' = roundCount w \<and> gameActive w' = gameActive w \<and>
     lastButton2State w' = lastButton2State w \<and> button2Pressed w' = button2Pressed w \<and>
     button1Pressed w' = r \<and>
     lastSerialPrint w' = lastSerialPrint w \<and> clock w' = clock w \<and> randoms w' = randoms w"
proof -
  from assms obtain ls w1 where
    d: "debounceButton button1Pin (lastButton1State w) (button1Pressed w) w = Some ((r, ls, r), w1)"
    and w': "w' = w1\<lparr>lastButton1State := ls, button1Pressed := r\<rparr>"
    by (rule debounceButton1_SomeD)
  from debounceButton_frame [OF d] show ?thesis by (simp add: w')
qed

lemma debounceButton2_frame:
  assumes "debounceButton2 w = Some (r, w')"
  shows "player1Score w' = player1Score w \<and> player2Score w' = player2Score w \<and>
     roundCount w' = roundCount w \<and> gameActive w' = gameActive w \<and>
     lastButton1State w' = lastButton1State w \<and> button1Pressed w' = button1Pressed w \<and>
     button2Pressed w' = r \<and>
     lastSerialPrint w' = lastSerialPrint w \<and> clock w' = clock w \<and> randoms w' = randoms w"
proof -
  from assms obtain ls w1 where
    d: "debounceButton button2Pin (lastButton2State w) (button2Pressed w) w = Some ((r, ls, r), w1)"
    and w': "w' = w1\<lparr>lastButton2State := ls, button2Pressed := r\<rparr>"
    by (rule debounceButton2_SomeD)
  from debounceButton_frame [OF d] show ?thesis by (simp add: w')
qed

lemma serialReport_cases:
  assumes "serialReport l a b w = Some w'"
  obtains now rest where "clock w = now # rest" "\<not> now - lastSerialPrint w \<ge> serialPrintInterval"
      "w' = w\<lparr>clock := rest\<rparr>"
  | now t rest where "clock w = now # t # rest" "now - lastSerialPrint w \<ge> serialPrintInterval"
      "w' = w\<lparr>trace := trace w @ [SerialPrint l, SerialPrint (if a then ''1'' else ''0''),
                 SerialPrint '' | P2: '', SerialPrint (if b then ''1'' else ''0''), SerialPrintln []],
               clock := rest, lastSerialPrint := t\<rparr>"
  using assms
  by (simp add: serialReport_def millis_def emit_def split: list.splits if_splits)

lemma serialReport_frame:
  "serialReport l a b w = Some w' \<Longrightarrow>
     player1Score w' = player1Score w \<and> player2Score w' = player2Score w \<and>
     roundCount w' = roundCount w \<and> gameActive w' = gameActive w \<and>
     lastButton1State w' = lastButton1State w \<and> lastButton2State w' = lastButton2State w \<and>
     button1Pressed w' = button1Pressed w \<and> button2Pressed w' = button2Pressed w \<and>
     pinReads w' = pinReads w \<and> randoms w' = randoms w"
  by (erule serialReport_cases) simp_all


lemma holdLoop_cases:
  assumes "holdLoop i st dt w = Some (res, w')"
  obtains (elapsed) now where "millis w = Some (now, w')" "\<not> now - st < dt" "res = None"
  | (early1) now w1 w2 b2 w3 w4 where "millis w = Some (now, w1)" "now - st < dt"
      "debounceButton1 w1 = Some (True, w2)" "debounceButton2 w2 = Some (b2, w3)"
      "serialReport (''Countdown LED '' @ String_int (int i + 1) @ '' - P1: '') True b2 w3 = Some w4"
      "res = Some Player1EarlyPress" "w' = player1Early w4"
  | (early2) now w1 w2 w3 w4 where "millis w = Some (now, w1)" "now - st < dt"
      "debounceButton1 w1 = Some (False, w2)" "debounceButton2 w2 = Some (True, w3)"
      "serialReport (''Countdown LED '' @ String_int (int i + 1) @ '' - P1: '') False True w3 = Some w4"
      "res = Some Player2EarlyPress" "w' = player2Early w4"
  | (again) now w1 w2 w3 w4 where "millis w = Some (now, w1)" "now - st < dt"
      "debounceButton1 w1 = Some (False, w2)" "debounceButton2 w2 = Some (False, w3)"
      "serialReport (''Countdown LED '' @ String_int (int i + 1) @ '' - P1: '') False False w3 = Some w4"
      "holdLoop i st dt w4 = Some (res, w')"
proof -
  from assms obtain now w1 where m: "millis w = Some (now, w1)"
    by (subst (asm) holdLoop.simps) (auto split: bind_splits)
  show thesis
  proof (cases "now - st < dt")
    case False
    with assms m have "res = None" "w' = w1"
      by (subst (asm) holdLoop.simps, simp)+
    with m False elapsed show thesis by simp
  next
    case True
    with assms m obtain b1 w2 b2 w3 w4 where
      d1: "debounceButton1 w1 = Some (b1, w2)" and d2: "debounceButton2 w2 = Some (b2, w3)"
      and sr: "serialReport (''Countdown LED '' @ String_int (int i + 1) @ '' - P1: '') b1 b2 w3 = Some w4"
      by (subst (asm) holdLoop.simps) (auto split: bind_splits)
    from assms m True d1 d2 sr have
      r: "(if b1 then Some (Some Player1EarlyPress, player1Early w4)
           else if b2 then Some (Some Player2EarlyPress, player2Early w4)
           else holdLoop i st dt w4) = Some (res, w')"
      by (subst (asm) holdLoop.simps) simp
    show thesis
    proof (cases b1)
      case True
      with r have "res = Some Player1EarlyPress" "w' = player1Early w4" by simp_all
      with m \<open>now - st < dt\<close> d1 d2 sr True early1 show thesis by simp
    next
      case b1: False
      show thesis
      proof (cases b2)
        case True
        with r b1 have "res = Some Player2EarlyPress" "w' = player2Early w4" by simp_all
        with m \<open>now - st < dt\<close> d1 d2 sr b1 True early2 show thesis by simp
      next
        case False
        with r b1 have "holdLoop i st dt w4 = Some (res, w')" by simp
        with m \<open>now - st < dt\<close> d1 d2 sr b1 False again show thesis by simp
      qed
    qed
  qed
qed


text \<open>
  Who is given the point of a round, on the pair (player1Score, player2Score): an early
  press is paid to the opponent, a reaction to the player.
\<close>

definition award :: "outcome \<Rightarrow> int \<times> int \<Rightarrow> int \<times> int" where
  "award out sc =
     (case out of
        Player1EarlyPress \<Rightarrow> (fst sc, snd sc + 1)
      | Player2EarlyPress \<Rightarrow> (fst sc + 1, snd sc)
      | Player1Reacted \<Rightarrow> (fst sc + 1, snd sc)
      | Player2Reacted \<Rightarrow> (fst sc, snd sc + 1))"

lemma emit_fields [simp]:
  "player1Score (emit e w) = player1Score w" "player2Score (emit e w) = player2Score w"
  "roundCount (emit e w) = roundCount w" "gameActive (emit e w) = gameActive w"
  "lastButton1State (emit e w) = lastButton1State w"
  "lastButton2State (emit e w) = lastButton2State w"
  "button1Pressed (emit e w) = button1Pressed w" "button2Pressed (emit e w) = button2Pressed w"
  "lastSerialPrint (emit e w) = lastSerialPrint w" "pinReads (emit e w) = pinReads w"
  "clock (emit e w) = clock w" "randoms (emit e w) = randoms w"
  "trace (emit e w) = trace w @ [e]"
  by (simp_all add: emit_def)

lemma updateDisplay_fields [simp]:
  "player1Score (updateDisplay m w) = player1Score w"
  "player2Score (updateDisplay m w) = player2Score w"
  "roundCount (updateDisplay m w) = roundCount w" "gameActive (updateDisplay m w) = gameActive w"
  "lastButton1State (updateDisplay m w) = lastButton1State w"
  "lastButton2State (updateDisplay m w) = lastButton2State w"
  "button1Pressed (updateDisplay m w) = button1Pressed w"
  "button2Pressed (updateDisplay m w) = button2Pressed w"
  "lastSerialPrint (updateDisplay m w) = lastSerialPrint w"
  "pinReads (updateDisplay m w) = pinReads w"
  "clock (updateDisplay m w) = clock w" "randoms (updateDisplay m w) = randoms w"
  by (simp_all add: updateDisplay_def Let_def)

lemma displayScores_fields [simp]:
  "player1Score (displayScores w) = player1Score w"
  "player2Score (displayScores w) = player2Score w"
  "roundCount (displayScores w) = roundCount w" "gameActive (displayScores w) = gameActive w"
  "lastButton1State (displayScores w) = lastButton1State w"
  "lastButton2State (displayScores w) = lastButton2State w"
  "button1Pressed (displayScores w) = button1Pressed w"
  "button2Pressed (displayScores w) = button2Pressed w"
  "lastSerialPrint (displayScores w) = lastSerialPrint w"
  "pinReads (displayScores w) = pinReads w"
  "clock (displayScores w) = clock w" "randoms (displayScores w) = randoms w"
  by (simp_all add: displayScores_def)

lemma player1Early_fields [simp]:
  "player1Score (player1Early w) = player1Score w"
  "player2Score (player1Early w) = player2Score w + 1"
  "roundCount (player1Early w) = roundCount w" "gameActive (player1Early w) = gameActive w"
  "lastButton1State (player1Early w) = lastButton1State w"
  "lastButton2State (player1Early w) = lastButton2State w"
  "button1Pressed (player1Early w) = False" "button2Pressed (player1Early w) = False"
  "lastSerialPrint (player1Early w) = lastSerialPrint w"
  "pinReads (player1Early w) = pinReads w"
  "clock (player1Early w) = clock w" "randoms (player1Early w) = randoms w"
  by (simp_all add: player1Early_def Let_def delay_def)

lemma player2Early_fields [simp]:
  "player1Score (player2Early w) = player1Score w + 1"
  "player2Score (player2Early w) = player2Score w"
  "roundCount (player2Early w) = roundCount w" "gameActive (player2Early w) = gameActive w"
  "lastButton1State (player2Early w) = lastButton1State w"
  "lastButton2State (player2Early w) = lastButton2State w"
  "button1Pressed (player2Early w) = False" "button2Pressed (player2Early w) = False"
  "lastSerialPrint (player2Early w) = lastSerialPrint w"
  "pinReads (player2Early w) = pinReads w"
  "clock (player2Early w) = clock w" "randoms (player2Early w) = randoms w"
  by (simp_all add: player2Early_def Let_def delay_def)

lemma player1Won_fields [simp]:
  "player1Score (player1Won w) = player1Score w + 1"
  "player2Score (player1Won w) = player2Score w"
  "roundCount (player1Won w) = roundCount w" "gameActive (player1Won w) = gameActive w"
  "lastButton1State (player1Won w) = lastButton1State w"
  "lastButton2State (player1Won w) = lastButton2State w"
  "button1Pressed (player1Won w) = button1Pressed w"
  "button2Pressed (player1Won w) = button2Pressed w"
  "lastSerialPrint (player1Won w) = lastSerialPrint w"
  "pinReads (player1Won w) = pinReads w"
  "clock (player1Won w) = clock w" "randoms (player1Won w) = randoms w"
  by (simp_all add: player1Won_def Let_def)

lemma player2Won_fields [simp]:
  "player1Score (player2Won w) = player1Score w"
  "player2Score (player2Won w) = player2Score w + 1"
  "roundCount (player2Won w) = roundCount w" "gameActive (player2Won w) = gameActive w"
  "lastButton1State (player2Won w) = lastButton1State w"
  "lastButton2State (player2Won w) = lastButton2State w"
  "button1Pressed (player2Won w) = button1Pressed w"
  "button2Pressed (player2Won w) = button2Pressed w"
  "lastSerialPrint (player2Won w) = lastSerialPrint w"
  "pinReads (player2Won w) = pinReads w"
  "clock (player2Won w) = clock w" "randoms (player2Won w) = randoms w"
  by (simp_all add: player2Won_def Let_def)

text \<open>Scores and round counter across one poll of both buttons and the report.\<close>

lemma poll_scores:
  assumes "debounceButton1 w1 = Some (b1, w2)" "debounceButton2 w2 = Some (b2, w3)"
    "serialReport l b1 b2 w3 = Some w4"
  shows "player1Score w4 = player1Score w1 \<and> player2Score w4 = player2Score w1 \<and>
         roundCount w4 = roundCount w1 \<and> gameActive w4 = gameActive w1"
  using debounceButton1_frame [OF assms(1)] debounceButton2_frame [OF assms(2)]
    serialReport_frame [OF assms(3)]
  by simp

lemma millis_scores:
  "millis w = Some (t, w') \<Longrightarrow> player1Score w' = player1Score w \<and>
     player2Score w' = player2Score w \<and> roundCount w' = roundCount w \<and>
     gameActive w' = gameActive w"
  by (auto dest!: millis_SomeD)

lemma random_scores:
  "random lo hi w = Some (t, w') \<Longrightarrow> player1Score w' = player1Score w \<and>
     player2Score w' = player2Score w \<and> roundCount w' = roundCount w \<and>
     gameActive w' = gameActive w"
  by (auto dest!: random_SomeD)

lemma poll_clock:
  assumes "debounceButton1 w1 = Some (b1, w2)" "debounceButton2 w2 = Some (b2, w3)"
    "serialReport l b1 b2 w3 = Some w4"
  shows "length (clock w4) < length (clock w1)"
  using debounceButton1_clock [OF assms(1)] debounceButton2_clock [OF assms(2)]
    serialReport_clock [OF assms(3)]
  by simp

lemma holdLoop_scores:
  "holdLoop i st dt w = Some (res, w') \<Longrightarrow>
     roundCount w' = roundCount w \<and> gameActive w' = gameActive w \<and>
     (case res of
        None \<Rightarrow> player1Score w' = player1Score w \<and> player2Score w' = player2Score w
      | Some out \<Rightarrow> (out = Player1EarlyPress \<or> out = Player2EarlyPress) \<and>
          (player1Score w', player2Score w') = award out (player1Score w, player2Score w))"
proof (induction "length (clock w)" arbitrary: w rule: less_induct)
  case less
  from less.prems show ?case
  proof (cases rule: holdLoop_cases)
    case (elapsed now)
    then show ?thesis using millis_scores by auto
  next
    case (early1 now w1 w2 b2 w3 w4)
    from millis_scores [OF early1(1)] poll_scores [OF early1(3,4,5)] early1(6,7)
    show ?thesis by (simp add: award_def)
  next
    case (early2 now w1 w2 w3 w4)
    from millis_scores [OF early2(1)] poll_scores [OF early2(3,4,5)] early2(6,7)
    show ?thesis by (simp add: award_def)
  next
    case (again now w1 w2 w3 w4)
    from again(1) have "length (clock w1) < length (clock w)"
      by (auto dest!: millis_SomeD)
    with poll_clock [OF again(3,4,5)] have "length (clock w4) < length (clock w)"
      by simp
    from less.hyps [OF this again(6)]
      millis_scores [OF again(1)] poll_scores [OF again(3,4,5)]
    show ?thesis by (simp split: option.splits)
  qed
qed

lemma countdown_scores:
  "countdown i w = Some (res, w') \<Longrightarrow>
     roundCount w' = roundCount w \<and> gameActive w' = gameActive w \<and>
     (case res of
        None \<Rightarrow> player1Score w' = player1Score w \<and> player2Score w' = player2Score w
      | Some out \<Rightarrow> (out = Player1EarlyPress \<or> out = Player2EarlyPress) \<and>
          (player1Score w', player2Score w') = award out (player1Score w, player2Score w))"
proof (induction "numLeds - i" arbitrary: i w rule: less_induct)
  case less
  show ?case
  proof (cases "i < numLeds")
    case False
    with less.prems show ?thesis
      by (subst (asm) countdown.simps) auto
  next
    case True
    with less.prems obtain st w1 dt w2 early w3 where
      m: "millis w = Some (st, w1)" and r: "random 500 2001 w1 = Some (dt, w2)"
      and h: "holdLoop i st (of_int dt) w2 = Some (early, w3)"
      by (subst (asm) countdown.simps) (auto split: bind_splits)
    note sc = millis_scores [OF m] random_scores [OF r] holdLoop_scores [OF h]
    show ?thesis
    proof (cases early)
      case (Some out)
      with less.prems True m r h have "res = Some out" "w' = w3"
        by (subst (asm) countdown.simps, simp)+
      with sc Some show ?thesis by simp
    next
      case None
      with less.prems True m r h have
        c: "countdown (i + 1)
              (emit (SerialPrintln (''LED '' @ String_int (int i + 1) @ '' turned off''))
                 (digitalWrite (ledPins ! i) LOW w3)) = Some (res, w')"
        by (subst (asm) countdown.simps) simp
      from True have "numLeds - (i + 1) < numLeds - i" by simp
      from less.hyps [OF this c] sc None show ?thesis
        by (simp add: digitalWrite_def split: option.splits)
    qed
  qed
qed


lemma reactionLoop_cases:
  assumes "reactionLoop w = Some (out, w')"
  obtains (won1) w1 b2 w2 w3 where
      "debounceButton1 w = Some (True, w1)" "debounceButton2 w1 = Some (b2, w2)"
      "serialReport ''Reaction Phase - P1: '' True b2 w2 = Some w3"
      "out = Player1Reacted" "w' = player1Won w3"
  | (won2) w1 w2 w3 where
      "debounceButton1 w = Some (False, w1)" "debounceButton2 w1 = Some (True, w2)"
      "serialReport ''Reaction Phase - P1: '' False True w2 = Some w3"
      "out = Player2Reacted" "w' = player2Won w3"
  | (again) w1 w2 w3 where
      "debounceButton1 w = Some (False, w1)" "debounceButton2 w1 = Some (False, w2)"
      "serialReport ''Reaction Phase - P1: '' False False w2 = Some w3"
      "reactionLoop w3 = Some (out, w')"
proof -
  from assms obtain b1 w1 b2 w2 w3 where
    d1: "debounceButton1 w = Some (b1, w1)" and d2: "debounceButton2 w1 = Some (b2, w2)"
    and sr: "serialReport ''Reaction Phase - P1: '' b1 b2 w2 = Some w3"
    by (subst (asm) reactionLoop.simps) (auto split: bind_splits)
  from assms d1 d2 sr have
    r: "(if b1 then Some (Player1Reacted, player1Won w3)
         else if b2 then Some (Player2Reacted, player2Won w3)
         else reactionLoop w3) = Some (out, w')"
    by (subst (asm) reactionLoop.simps) simp
  show thesis
  proof (cases b1)
    case True
    with r have "out = Player1Reacted" "w' = player1Won w3" by simp_all
    with d1 d2 sr True won1 show thesis by simp
  next
    case b1: False
    show thesis
    proof (cases b2)
      case True
      with r b1 have "out = Player2Reacted" "w' = player2Won w3" by simp_all
      with d1 d2 sr b1 True won2 show thesis by simp
    next
      case False
      with r b1 have "reactionLoop w3 = Some (out, w')" by simp
      with d1 d2 sr b1 False again show thesis by simp
    qed
  qed
qed

lemma reactionLoop_scores:
  "reactionLoop w = Some (out, w') \<Longrightarrow>
     roundCount w' = roundCount w \<and> gameActive w' = gameActive w \<and>
     (out = Player1Reacted \<or> out = Player2Reacted) \<and>
     (player1Score w', player2Score w') = award out (player1Score w, player2Score w)"
proof (induction "length (clock w)" arbitrary: w rule: less_induct)
  case less
  from less.prems show ?case
  proof (cases rule: reactionLoop_cases)
    case (won1 w1 b2 w2 w3)
    from poll_scores [OF won1(1,2,3)] won1(4,5)
    show ?thesis by (simp add: award_def)
  next
    case (won2 w1 w2 w3)
    from poll_scores [OF won2(1,2,3)] won2(4,5)
    show ?thesis by (simp add: award_def)
  next
    case (again w1 w2 w3)
    from less.hyps [OF poll_clock [OF again(1,2,3)] again(4)] poll_scores [OF again(1,2,3)]
    show ?thesis by simp
  qed
qed

lemma fold_digitalWrite_fields [simp]:
  "player1Score (fold (\<lambda>i. digitalWrite (f i) v) xs w) = player1Score w"
  "player2Score (fold (\<lambda>i. digitalWrite (f i) v) xs w) = player2Score w"
  "roundCount (fold (\<lambda>i. digitalWrite (f i) v) xs w) = roundCount w"
  "gameActive (fold (\<lambda>i. digitalWrite (f i) v) xs w) = gameActive w"
  by (induction xs arbitrary: w; simp add: digitalWrite_def)+

lemma roundStart_fields [simp]:
  "player1Score (roundStart w) = player1Score w"
  "player2Score (roundStart w) = player2Score w"
  "roundCount (roundStart w) = roundCount w + 1"
  "gameActive (roundStart w) = gameActive w"
  by (simp_all add: roundStart_def Let_def)

lemma playOneRound_cases:
  assumes "playOneRound w = Some (out, w')"
  obtains (early) "countdown 0 (roundStart w) = Some (Some out, w')"
  | (reacted) w5 w6 where "countdown 0 (roundStart w) = Some (None, w5)"
      "reactionLoop w5 = Some (out, w6)"
      "w' = (delay 2000 w6)\<lparr>button1Pressed := False, button2Pressed := False\<rparr>"
  using assms
  by (auto simp: playOneRound_def split: bind_splits option.splits)

lemma playOneRound_scores:
  assumes "playOneRound w = Some (out, w')"
  shows "roundCount w' = roundCount w + 1 \<and> gameActive w' = gameActive w \<and>
     (player1Score w', player2Score w') = award out (player1Score w, player2Score w)"
  using assms
proof (cases rule: playOneRound_cases)
  case early
  from countdown_scores [OF early] show ?thesis by simp
next
  case (reacted w5 w6)
  from countdown_scores [OF reacted(1)] reactionLoop_scores [OF reacted(2)] reacted(3)
  show ?thesis by (simp add: delay_def)
qed


subsection \<open>The match\<close>

text \<open>
  playRound (lines 118-216): the guard of line 119, then one round and the recursive call
  that each of the three branches ends with.
\<close>

function playRound :: "world \<Rightarrow> world option" where
  "playRound w =
     (if roundCount w \<ge> maxRounds then Some (endGame w)
      else do {
        (out, w') \<leftarrow> playOneRound w;
        playRound w'
      })"
  by pat_completeness auto
termination
proof (relation "measure (\<lambda>w. nat (maxRounds - roundCount w))")
  show "wf (measure (\<lambda>w. nat (maxRounds - roundCount w)))" by simp
next
  fix w w' :: world and x out
  assume "\<not> maxRounds \<le> roundCount w" "playOneRound w = Some x" "(out, w') = x"
  then have "roundCount w' = roundCount w + 1" "roundCount w < maxRounds"
    by (auto dest: playOneRound_scores)
  then show "(w', w) \<in> measure (\<lambda>w. nat (maxRounds - roundCount w))"
    by simp
qed

declare playRound.simps [simp del]

text \<open>startNewGame (lines 106-116): the assignments, then the first call of playRound.\<close>

definition resetGame :: "world \<Rightarrow> world" where
  "resetGame w =
     w\<lparr>player1Score := 0, player2Score := 0, roundCount := 0,
       button1Pressed := False, button2Pressed := False,
       lastButton1State := LOW, lastButton2State := LOW\<rparr>"

definition startNewGame :: "world \<Rightarrow> world option" where
  "startNewGame w = playRound (resetGame w)"

text \<open>
  The wait for both buttons to be released (lines 78-80); \<open>||\<close> reads button 1 first,
  and button 2 only when button 1 reads LOW.
\<close>

function waitRelease :: "world \<Rightarrow> world option" where
  "waitRelease w = do {
     (r1, w1) \<leftarrow> digitalRead button1Pin w;
     if r1 = HIGH then waitRelease (delay 10 w1)
     else do {
       (r2, w2) \<leftarrow> digitalRead button2Pin w1;
       if r2 = HIGH then waitRelease (delay 10 w2) else Some w2
     }
   }"
  by pat_completeness auto
termination
  by (relation "measure (\<lambda>w. length (pinReads w))")
     (auto simp: delay_def emit_def dest!: digitalRead_SomeD)

declare waitRelease.simps [simp del]

text \<open>
  loop (lines 53-83) in three parts: the sampling and the report (lines 55-66), the
  condition of line 69, and the body of the conditional (lines 70-81).
\<close>

definition loopSample :: "world \<Rightarrow> (bool \<times> bool \<times> world) option" where
  "loopSample w = do {
     (button1State, w1) \<leftarrow> debounceButton1 w;
     (button2State, w2) \<leftarrow> debounceButton2 w1;
     w3 \<leftarrow> serialReport ''Main Loop - P1: '' button1State button2State w2;
     Some (button1State, button2State, w3)
   }"

definition startCondition :: "world \<Rightarrow> bool \<Rightarrow> bool \<Rightarrow> bool" where
  "startCondition w button1State button2State =
     (\<not> gameActive w \<and> button1State \<and> button2State)"

definition enterGame :: "world \<Rightarrow> world option" where
  "enterGame w = do {
     let w1 = emit (SerialPrintln ''Both buttons pressed - Starting game'')
                (w\<lparr>gameActive := True\<rparr>);
     let w2 = w1\<lparr>button1Pressed := False, button2Pressed := False,
                 lastButton1State := LOW, lastButton2State := LOW\<rparr>;
     w3 \<leftarrow> waitRelease w2;
     startNewGame w3
   }"

definition loop :: "world \<Rightarrow> world option" where
  "loop w = do {
     (button1State, button2State, w1) \<leftarrow> loopSample w;
     if startCondition w1 button1State button2State then enterGame w1 else Some w1
   }"

text \<open>
  The variables as initialised at lines 14-29, with the inputs the hardware will deliver,
  and setup (lines 31-51), named \<open>setup_sketch\<close> here. OUTPUT is \<open>True\<close> and INPUT is \<open>False\<close> in PinMode.
\<close>

definition powerOn :: "(bool \<times> bool) list \<Rightarrow> 32 word list \<Rightarrow> nat list \<Rightarrow> world" where
  "powerOn reads ticks rands =
     \<lparr>player1Score = 0, player2Score = 0, roundCount = 0, gameActive = False,
      lastButton1State = LOW, lastButton2State = LOW,
      button1Pressed = False, button2Pressed = False, lastSerialPrint = 0,
      pinReads = reads, clock = ticks, randoms = rands, trace = []\<rparr>"

definition setup_sketch :: "world \<Rightarrow> world" where
  "setup_sketch w =
     (let w1 = emit (SerialPrintln ''Reaction Game Started'') (emit (SerialBegin 9600) w);
          w2 = emit (PinMode button2Pin False) (emit (PinMode button1Pin False) w1);
          w3 = fold (\<lambda>i u. digitalWrite (ledPins ! i) LOW (emit (PinMode (ledPins ! i) True) u))
                 [0..<numLeds] w2;
          w4 = updateDisplay ''Start Game'' (emit LcdBacklight (emit LcdInit w3));
          w5 = emit (LcdPrint ''Press both btns'') (emit (LcdSetCursor 0 1) w4)
      in emit (SerialPrintln ''LCD Initialized: Start Game, Press both btns'') w5)"

subsection \<open>Repeated sampling\<close>

text \<open>
  \<open>n\<close> successive calls of debounceButton on one channel, each call given the references
  as the call before left them; the values returned are collected in order.
\<close>

fun sampleTimes ::
    "nat \<Rightarrow> int \<Rightarrow> bool \<Rightarrow> bool \<Rightarrow> world \<Rightarrow> ((bool list \<times> bool \<times> bool) \<times> world) option" where
  "sampleTimes 0 pin lastState pressedFlag w = Some (([], lastState, pressedFlag), w)"
| "sampleTimes (Suc n) pin lastState pressedFlag w = do {
     ((r, lastState', pressedFlag'), w1) \<leftarrow> debounceButton pin lastState pressedFlag w;
     ((rs, lastState'', pressedFlag''), w2) \<leftarrow> sampleTimes n pin lastState' pressedFlag' w1;
     Some ((r # rs, lastState'', pressedFlag''), w2)
   }"


subsection \<open>Rounds of a match\<close>

text \<open>
  The first \<open>k\<close> rounds from a state, as playRound runs them one after the other, with
  the outcomes in order. The guard of line 119 is not part of it.
\<close>

fun playRounds :: "nat \<Rightarrow> world \<Rightarrow> (outcome list \<times> world) option" where
  "playRounds 0 w = Some ([], w)"
| "playRounds (Suc k) w = do {
     (out, w1) \<leftarrow> playOneRound w;
     (outs, w2) \<leftarrow> playRounds k w1;
     Some (out # outs, w2)
   }"

text \<open>
  The call stack of playRound: an invocation entered in state \<open>w\<close> re-enters playRound in
  state \<open>w'\<close> when its guard is false and its round ends in \<open>w'\<close>. A list of states in
  which each is re-entered from the one before is a stack of nested invocations.
\<close>

definition reenters :: "world \<Rightarrow> world \<Rightarrow> bool" where
  "reenters w w' =
     (roundCount w < maxRounds \<and>
      (case playOneRound w of None \<Rightarrow> False | Some (out, w1) \<Rightarrow> w1 = w'))"


definition nested :: "world list \<Rightarrow> bool" where
  "nested ws = successively reenters ws"

subsection \<open>LED writes in the output\<close>

text \<open>The (pin, level) pairs of the digitalWrite events of a trace, in order.\<close>

fun ledWrites :: "event list \<Rightarrow> (int \<times> bool) list" where
  "ledWrites [] = []"
| "ledWrites (DigitalWrite pin v # es) = (pin, v) # ledWrites es"
| "ledWrites (e # es) = ledWrites es"


subsection \<open>Two recorded matches\<close>

text \<open>
  Inputs of two complete matches, as delivered to the sketch from the call of
  startNewGame on: every round of the first ends in an early press (the last with both
  buttons down at the same poll); in the second, rounds 1, 3 and 5 run through the
  countdown and end in a reaction, rounds 2 and 4 in an early press.
\<close>

definition matchA :: world where
  "matchA = powerOn [(HIGH, LOW), (HIGH, LOW), (HIGH, LOW), (LOW, HIGH), (LOW, HIGH), (LOW, HIGH), (LOW, HIGH), (HIGH, LOW), (HIGH, LOW), (HIGH, LOW), (HIGH, LOW), (LOW, LOW), (LOW, LOW), (LOW, LOW), (LOW, HIGH), (LOW, HIGH), (LOW, HIGH), (HIGH, HIGH), (HIGH, HIGH), (HIGH, HIGH)]
     [0, 100, 253, 353, 2453, 2553, 2757, 2857, 4957, 5057, 5261, 5361, 7461, 7561, 7714, 7814, 7914, 8067, 8167, 10267, 10367, 10520, 10620]
     [1501, 3040, 7, 4503, 60]"

definition matchB :: world where
  "matchB = powerOn [(HIGH, HIGH), (HIGH, HIGH), (HIGH, HIGH), (HIGH, HIGH), (LOW, LOW), (LOW, LOW), (LOW, LOW), (LOW, LOW), (LOW, HIGH), (LOW, HIGH), (LOW, HIGH), (LOW, LOW), (LOW, LOW), (LOW, LOW), (LOW, HIGH), (LOW, HIGH), (LOW, HIGH), (HIGH, LOW), (HIGH, LOW), (HIGH, LOW), (HIGH, LOW), (LOW, LOW), (LOW, LOW), (LOW, LOW), (HIGH, LOW), (HIGH, LOW), (HIGH, LOW)]
     [0, 600, 1200, 1800, 2400, 3000, 3704, 4304, 6904, 7004, 7208, 7308, 7408, 7508, 7608, 7761, 7861, 9961, 10561, 11161, 11761, 12361, 12961, 13614, 14214, 14867, 15467, 18067, 18167, 18371, 18471, 20571, 21171, 21771, 22371, 22971, 23571, 24224, 24824, 25477, 26077]
     [1501, 3040, 7, 4503, 60, 1501, 3040, 7, 4503, 60, 1501, 3040]"

text \<open>The entry states of the first \<open>k + 1\<close> nested invocations of playRound from \<open>w\<close>.\<close>

fun invocations :: "nat \<Rightarrow> world \<Rightarrow> world list" where
  "invocations 0 w = [w]"
| "invocations (Suc k) w =
     w # (if roundCount w < maxRounds
          then (case playOneRound w of None \<Rightarrow> [] | Some (out, w') \<Rightarrow> invocations k w')
          else [])"


subsection \<open>Recorded idle passes and a reaction poll\<close>

text \<open>
  Three passes of loop after power-on: player 1 presses and holds (\<open>idle0\<close> to
  \<open>idle1\<close>), player 1 releases (\<open>idle1\<close> to \<open>idle2\<close>), player 2 presses while button 1
  is up (\<open>idle2\<close>, sampled to \<open>idle3\<close>).
\<close>

definition idle0 :: world where
  "idle0 = powerOn
     [(HIGH, LOW), (HIGH, LOW), (HIGH, LOW), (LOW, LOW), (LOW, LOW), (LOW, LOW),
      (LOW, HIGH), (LOW, HIGH), (LOW, HIGH)]
     [0, 60, 120, 121] []"

definition idle1 :: world where
  "idle1 = (powerOn
     [(LOW, LOW), (LOW, LOW), (LOW, LOW), (LOW, HIGH), (LOW, HIGH), (LOW, HIGH)]
     [60, 120, 121] [])
     \<lparr>lastButton1State := HIGH, button1Pressed := True, trace := [Delay 50]\<rparr>"

definition idle2 :: world where
  "idle2 = (powerOn [(LOW, HIGH), (LOW, HIGH), (LOW, HIGH)] [120, 121] [])
     \<lparr>lastButton1State := LOW, button1Pressed := True, trace := [Delay 50, Delay 50]\<rparr>"

definition idle3 :: world where
  "idle3 = (powerOn [] [] [])
     \<lparr>lastButton1State := LOW, button1Pressed := True,
      lastButton2State := HIGH, button2Pressed := True, lastSerialPrint := 121,
      trace := [Delay 50, Delay 50, Delay 50, SerialPrint ''Main Loop - P1: '',
                SerialPrint ''1'', SerialPrint '' | P2: '', SerialPrint ''1'',
                SerialPrintln []]\<rparr>"


text \<open>A state of the reaction phase in which both buttons go down before the next poll.\<close>

definition bothDown :: world where
  "bothDown = (powerOn [(HIGH, HIGH), (HIGH, HIGH), (HIGH, HIGH), (HIGH, HIGH)] [6005] [])
     \<lparr>player1Score := 1, player2Score := 1, roundCount := 3, gameActive := True,
      lastSerialPrint := 5950\<rparr>"

text \<open>
  A poll of the countdown of round 1 at which both buttons have gone down: the state at
  the head of the hold loop (\<open>hold0\<close>) and after the clock reading, the two samples and
  the report (\<open>hold1\<close> to \<open>hold4\<close>).
\<close>

definition hold0 :: world where
  "hold0 = (powerOn [(HIGH, HIGH), (HIGH, HIGH), (HIGH, HIGH), (HIGH, HIGH)] [100, 253, 254] [])
     \<lparr>roundCount := 1, gameActive := True\<rparr>"

definition hold1 :: world where
  "hold1 = hold0\<lparr>clock := [253, 254]\<rparr>"

definition hold2 :: world where
  "hold2 = hold1\<lparr>pinReads := [(HIGH, HIGH), (HIGH, HIGH)], trace := [Delay 50],
                 lastButton1State := HIGH, button1Pressed := True\<rparr>"

definition hold3 :: world where
  "hold3 = hold2\<lparr>pinReads := [], trace := [Delay 50, Delay 50],
                 lastButton2State := HIGH, button2Pressed := True\<rparr>"

definition hold4 :: world where
  "hold4 = hold3\<lparr>clock := [], lastSerialPrint := 254,
                 trace := [Delay 50, Delay 50, SerialPrint (''Countdown LED '' @ String_int (int 0 + 1) @ '' - P1: ''),
                           SerialPrint ''1'', SerialPrint '' | P2: '', SerialPrint ''1'',
                           SerialPrintln []]\<rparr>"

subsection \<open>Polls of a countdown\<close>

text \<open>
  Where a countdown stands. \<open>holdEntry j i w\<close> is the start time, the hold time and the
  state with which the countdown, entered at LED \<open>i\<close> in \<open>w\<close>, enters the while loop of
  LED \<open>j\<close>: the holds of the LEDs before \<open>j\<close> have elapsed and these LEDs are off.
  \<open>holdHead n i startTime delayTime w\<close> is the state at the head of that while loop
  after \<open>n\<close> further polls at which no button value was set.
\<close>

fun holdHead :: "nat \<Rightarrow> nat \<Rightarrow> 32 word \<Rightarrow> 32 word \<Rightarrow> world \<Rightarrow> world option" where
  "holdHead 0 i startTime delayTime w = Some w"
| "holdHead (Suc n) i startTime delayTime w = do {
     (now, w1) \<leftarrow> millis w;
     if now - startTime < delayTime then do {
       (button1State, w2) \<leftarrow> debounceButton1 w1;
       (button2State, w3) \<leftarrow> debounceButton2 w2;
       w4 \<leftarrow> serialReport (''Countdown LED '' @ String_int (int i + 1) @ '' - P1: '')
               button1State button2State w3;
       if button1State \<or> button2State then None
       else holdHead n i startTime delayTime w4
     } else None
   }"

function holdEntry :: "nat \<Rightarrow> nat \<Rightarrow> world \<Rightarrow> (32 word \<times> 32 word \<times> world) option" where
  "holdEntry j i w =
     (if i < numLeds then do {
        (startTime, w1) \<leftarrow> millis w;
        (delayTime, w2) \<leftarrow> random 500 2001 w1;
        if i = j then Some (startTime, of_int delayTime, w2)
        else do {
          (early, w3) \<leftarrow> holdLoop i startTime (of_int delayTime) w2;
          case early of
            Some out \<Rightarrow> None
          | None \<Rightarrow>
              holdEntry j (i + 1)
                (emit (SerialPrintln (''LED '' @ String_int (int i + 1) @ '' turned off''))
                   (digitalWrite (ledPins ! i) LOW w3))
        }
      } else None)"
  by pat_completeness auto
termination
  by (relation "measure (\<lambda>(j, i, w). numLeds - i)") auto

declare holdEntry.simps [simp del]


text \<open>
  A round in which player 2 presses during the hold of the second LED, at its second
  poll.
\<close>

definition late :: world where
  "late = (powerOn [(LOW, LOW), (LOW, LOW), (LOW, HIGH), (LOW, HIGH), (LOW, HIGH)]
             [0, 600, 601, 700, 701, 702, 800, 851, 852] [0, 7])
     \<lparr>gameActive := True\<rparr>"

section \<open>Properties\<close>

subsection \<open>Fields across the steps\<close>

lemma digitalWrite_fields [simp]:
  "player1Score (digitalWrite p v w) = player1Score w"
  "player2Score (digitalWrite p v w) = player2Score w"
  "roundCount (digitalWrite p v w) = roundCount w"
  "gameActive (digitalWrite p v w) = gameActive w"
  "lastButton1State (digitalWrite p v w) = lastButton1State w"
  "lastButton2State (digitalWrite p v w) = lastButton2State w"
  "button1Pressed (digitalWrite p v w) = button1Pressed w"
  "button2Pressed (digitalWrite p v w) = button2Pressed w"
  "lastSerialPrint (digitalWrite p v w) = lastSerialPrint w"
  "pinReads (digitalWrite p v w) = pinReads w"
  "clock (digitalWrite p v w) = clock w" "randoms (digitalWrite p v w) = randoms w"
  "trace (digitalWrite p v w) = trace w @ [DigitalWrite p v]"
  by (simp_all add: digitalWrite_def)

lemma delay_fields [simp]:
  "player1Score (delay n w) = player1Score w"
  "player2Score (delay n w) = player2Score w"
  "roundCount (delay n w) = roundCount w"
  "gameActive (delay n w) = gameActive w"
  "lastButton1State (delay n w) = lastButton1State w"
  "lastButton2State (delay n w) = lastButton2State w"
  "button1Pressed (delay n w) = button1Pressed w"
  "button2Pressed (delay n w) = button2Pressed w"
  "lastSerialPrint (delay n w) = lastSerialPrint w"
  "pinReads (delay n w) = pinReads w"
  "clock (delay n w) = clock w" "randoms (delay n w) = randoms w"
  "trace (delay n w) = trace w @ [Delay n]"
  by (simp_all add: delay_def)

lemma fold_digitalWrite_inputs [simp]:
  "lastButton1State (fold (\<lambda>i. digitalWrite (f i) v) xs w) = lastButton1State w"
  "lastButton2State (fold (\<lambda>i. digitalWrite (f i) v) xs w) = lastButton2State w"
  "button1Pressed (fold (\<lambda>i. digitalWrite (f i) v) xs w) = button1Pressed w"
  "button2Pressed (fold (\<lambda>i. digitalWrite (f i) v) xs w) = button2Pressed w"
  "lastSerialPrint (fold (\<lambda>i. digitalWrite (f i) v) xs w) = lastSerialPrint w"
  "pinReads (fold (\<lambda>i. digitalWrite (f i) v) xs w) = pinReads w"
  "clock (fold (\<lambda>i. digitalWrite (f i) v) xs w) = clock w"
  "randoms (fold (\<lambda>i. digitalWrite (f i) v) xs w) = randoms w"
  by (induction xs arbitrary: w; simp)+

lemma roundStart_inputs [simp]:
  "lastButton1State (roundStart w) = lastButton1State w"
  "lastButton2State (roundStart w) = lastButton2State w"
  "button1Pressed (roundStart w) = button1Pressed w"
  "button2Pressed (roundStart w) = button2Pressed w"
  "lastSerialPrint (roundStart w) = lastSerialPrint w"
  "pinReads (roundStart w) = pinReads w"
  "clock (roundStart w) = clock w" "randoms (roundStart w) = randoms w"
  by (simp_all add: roundStart_def Let_def)



subsection \<open>Debouncer\<close>

lemma debounceButton_unchanged:
  "pinReads w = s # rest \<Longrightarrow> level pin s = ls \<Longrightarrow>
     debounceButton pin ls pf w = Some ((pf, ls, pf), w\<lparr>pinReads := rest\<rparr>)"
  by (simp add: debounceButton_def digitalRead_def)

lemma sampleTimes_unchanged:
  "n \<le> length (pinReads w) \<Longrightarrow> \<forall>s \<in> set (take n (pinReads w)). level pin s = ls \<Longrightarrow>
     sampleTimes n pin ls pf w
       = Some ((replicate n pf, ls, pf), w\<lparr>pinReads := drop n (pinReads w)\<rparr>)"
proof (induction n arbitrary: w)
  case 0
  then show ?case by simp
next
  case (Suc n)
  then obtain s rest where sr: "pinReads w = s # rest"
    by (cases "pinReads w") auto
  with Suc.prems have "level pin s = ls" by simp
  from debounceButton_unchanged [OF sr this]
  have d: "debounceButton pin ls pf w = Some ((pf, ls, pf), w\<lparr>pinReads := rest\<rparr>)" .
  from Suc.prems sr have "n \<le> length (pinReads (w\<lparr>pinReads := rest\<rparr>))"
    "\<forall>s \<in> set (take n (pinReads (w\<lparr>pinReads := rest\<rparr>))). level pin s = ls"
    by simp_all
  from Suc.IH [OF this] d sr show ?case by simp
qed

lemma debounceButton_latch:
  assumes "debounceButton pin ls pf w = Some ((r, ls', pf'), w')"
  shows "r = pf' \<and> (pf \<longrightarrow> pf') \<and>
     (pf' \<and> \<not> pf \<longrightarrow> ls = LOW \<and> ls' = HIGH \<and>
        (\<exists>s1 s2 rest. pinReads w = s1 # s2 # rest \<and> level pin s1 = HIGH \<and> level pin s2 = HIGH))"
  using assms by (rule debounceButton_cases) (auto split: if_splits)


text \<open>
  Claim C7. Sampling is idempotent on unchanged input: when the next \<open>n\<close> raw readings
  of a channel all equal its last stable state, \<open>n\<close> calls of debounceButton leave the
  stable state and the latched flag as they were, each call returns the flag, and each
  call takes one reading. For any call, the flag is never cleared (a set flag stays set),
  and it changes from clear to set only when the stable state was LOW and both the reading
  and the reading after the settle delay are HIGH, which commits the stable state to HIGH.
\<close>

theorem debounce_idempotent_latch_monotone:
  "(n \<le> length (pinReads w) \<and> (\<forall>s \<in> set (take n (pinReads w)). level pin s = ls) \<longrightarrow>
      sampleTimes n pin ls pf w
        = Some ((replicate n pf, ls, pf), w\<lparr>pinReads := drop n (pinReads w)\<rparr>)) \<and>
   (debounceButton pin ls pf w = Some ((r, ls', pf'), w') \<longrightarrow>
      r = pf' \<and> (pf \<longrightarrow> pf') \<and>
      (pf' \<and> \<not> pf \<longrightarrow> ls = LOW \<and> ls' = HIGH \<and>
        (\<exists>s1 s2 rest. pinReads w = s1 # s2 # rest \<and> level pin s1 = HIGH \<and> level pin s2 = HIGH)))"
proof (rule conjI)
  show "n \<le> length (pinReads w) \<and> (\<forall>s \<in> set (take n (pinReads w)). level pin s = ls) \<longrightarrow>
      sampleTimes n pin ls pf w
        = Some ((replicate n pf, ls, pf), w\<lparr>pinReads := drop n (pinReads w)\<rparr>)"
    by (simp add: sampleTimes_unchanged)
next
  show "debounceButton pin ls pf w = Some ((r, ls', pf'), w') \<longrightarrow>
      r = pf' \<and> (pf \<longrightarrow> pf') \<and>
      (pf' \<and> \<not> pf \<longrightarrow> ls = LOW \<and> ls' = HIGH \<and>
        (\<exists>s1 s2 rest. pinReads w = s1 # s2 # rest \<and> level pin s1 = HIGH \<and> level pin s2 = HIGH))"
    by (rule impI) (rule debounceButton_latch)
qed

theorem debounce_idempotent_latch_monotone_witness:
  "sampleTimes 3 button1Pin LOW True
       (powerOn [(LOW, HIGH), (LOW, LOW), (LOW, HIGH), (HIGH, HIGH)] [] [])
     = Some (([True, True, True], LOW, True), powerOn [(HIGH, HIGH)] [] []) \<and>
   debounceButton button1Pin LOW False (powerOn [(HIGH, LOW), (HIGH, LOW)] [] [])
     = Some ((True, HIGH, True), (powerOn [] [] [])\<lparr>trace := [Delay debounceDelay]\<rparr>) \<and>
   (\<exists>s1 s2 rest. pinReads (powerOn [(HIGH, LOW), (HIGH, LOW)] [] []) = s1 # s2 # rest \<and>
      level button1Pin s1 = HIGH \<and> level button1Pin s2 = HIGH)"
proof -
  have h1: "3 \<le> length (pinReads (powerOn [(LOW, HIGH), (LOW, LOW), (LOW, HIGH), (HIGH, HIGH)] [] []))
      \<and> (\<forall>s \<in> set (take 3 (pinReads
             (powerOn [(LOW, HIGH), (LOW, LOW), (LOW, HIGH), (HIGH, HIGH)] [] []))).
           level button1Pin s = LOW)"
    by (simp add: powerOn_def level_def numeral_3_eq_3)
  have h2: "debounceButton button1Pin LOW False (powerOn [(HIGH, LOW), (HIGH, LOW)] [] [])
     = Some ((True, HIGH, True), (powerOn [] [] [])\<lparr>trace := [Delay debounceDelay]\<rparr>)"
    by (simp add: powerOn_def level_def debounceButton_def digitalRead_def delay_def emit_def)
  from h1 h2
    debounce_idempotent_latch_monotone [of 3 "powerOn [(LOW, HIGH), (LOW, LOW), (LOW, HIGH), (HIGH, HIGH)] [] []"
           button1Pin LOW True]
    debounce_idempotent_latch_monotone [of 0 "powerOn [(HIGH, LOW), (HIGH, LOW)] [] []" button1Pin LOW False True HIGH True
           "(powerOn [] [] [])\<lparr>trace := [Delay debounceDelay]\<rparr>"]
  show ?thesis
    by (simp add: powerOn_def numeral_3_eq_3)
qed


subsection \<open>End of the match\<close>

lemma endGame_trace:
  "trace (endGame w) = trace w @
     [LcdInit, LcdBacklight, LcdClear, LcdSetCursor 4 0, LcdPrint ''End Game'',
      SerialPrintln ''LCD Update: End Game'',
      LcdSetCursor 0 1, LcdPrint ''P1:'', LcdPrint (String_int (player1Score w)),
      LcdSetCursor 8 1, LcdPrint ''P2:'', LcdPrint (String_int (player2Score w)),
      SerialPrintln (''LCD Scores: P1:'' @ String_int (player1Score w) @ '' P2:''
                     @ String_int (player2Score w)),
      SerialPrintln (''Game Over - '' @ finalResult w),
      Delay 10000,
      LcdInit, LcdBacklight, LcdClear, LcdSetCursor 3 0, LcdPrint ''Start Game'',
      SerialPrintln ''LCD Update: Start Game'',
      LcdSetCursor 0 1, LcdPrint ''Press both btns'',
      SerialPrintln ''LCD Reset: Start Game, Press both btns'',
      SerialPrintln ''Game reset - Press both buttons to start again'']"
  by (simp add: endGame_def Let_def delay_def updateDisplay_def displayScores_def
        finalResult_def)


lemma finalResult_iff:
  "(finalResult w = ''Player 1 wins!'') = (player1Score w > player2Score w)"
  "(finalResult w = ''Player 2 wins!'') = (player2Score w > player1Score w)"
  "(finalResult w = ''It's a tie!'') = (player1Score w = player2Score w)"
  by (auto simp: finalResult_def)


lemma endGame_fields:
  "gameActive (endGame w) = False" "button1Pressed (endGame w) = False"
  "button2Pressed (endGame w) = False" "lastButton1State (endGame w) = LOW"
  "lastButton2State (endGame w) = LOW"
  "player1Score (endGame w) = player1Score w" "player2Score (endGame w) = player2Score w"
  "roundCount (endGame w) = roundCount w"
  by (simp_all add: endGame_def Let_def delay_def)


text \<open>
  Claim C8. endGame reports on the serial line "Player 1 wins!" exactly when
  player1Score > player2Score, "Player 2 wins!" exactly when player2Score > player1Score
  and "It's a tie!" exactly when the scores are equal; the report is followed by the one
  delay of 10000, then by the start screen; endGame leaves the game inactive, both
  latched flags cleared and both stable states LOW.
\<close>

theorem endGame_reports_and_resets:
  "(finalResult w = ''Player 1 wins!'') = (player1Score w > player2Score w) \<and>
   (finalResult w = ''Player 2 wins!'') = (player2Score w > player1Score w) \<and>
   (finalResult w = ''It's a tie!'') = (player1Score w = player2Score w) \<and>
   trace (endGame w) = trace w @
     [LcdInit, LcdBacklight, LcdClear, LcdSetCursor 4 0, LcdPrint ''End Game'',
      SerialPrintln ''LCD Update: End Game'',
      LcdSetCursor 0 1, LcdPrint ''P1:'', LcdPrint (String_int (player1Score w)),
      LcdSetCursor 8 1, LcdPrint ''P2:'', LcdPrint (String_int (player2Score w)),
      SerialPrintln (''LCD Scores: P1:'' @ String_int (player1Score w) @ '' P2:''
                     @ String_int (player2Score w)),
      SerialPrintln (''Game Over - '' @ finalResult w),
      Delay 10000,
      LcdInit, LcdBacklight, LcdClear, LcdSetCursor 3 0, LcdPrint ''Start Game'',
      SerialPrintln ''LCD Update: Start Game'',
      LcdSetCursor 0 1, LcdPrint ''Press both btns'',
      SerialPrintln ''LCD Reset: Start Game, Press both btns'',
      SerialPrintln ''Game reset - Press both buttons to start again''] \<and>
   gameActive (endGame w) = False \<and>
   button1Pressed (endGame w) = False \<and> button2Pressed (endGame w) = False \<and>
   lastButton1State (endGame w) = LOW \<and> lastButton2State (endGame w) = LOW"
  using finalResult_iff [of w] endGame_trace [of w] endGame_fields [of w]
  by simp

subsection \<open>Rounds and the score\<close>

lemma award_sum: "award out (a, b) = (a', b') \<Longrightarrow> a' + b' = a + b + 1"
  by (cases out) (auto simp: award_def)

lemma playOneRound_sum:
  assumes "playOneRound w = Some (out, w')"
  shows "player1Score w' + player2Score w' = player1Score w + player2Score w + 1"
  using playOneRound_scores [OF assms] award_sum [of out "player1Score w" "player2Score w"]
  by simp

lemma playRounds_scores:
  "playRounds k w = Some (outs, w') \<Longrightarrow>
     length outs = k \<and> roundCount w' = roundCount w + int k \<and>
     gameActive w' = gameActive w \<and>
     (player1Score w', player2Score w') = fold award outs (player1Score w, player2Score w) \<and>
     player1Score w' + player2Score w' = player1Score w + player2Score w + int k"
proof (induction k arbitrary: w outs)
  case 0
  then show ?case by simp
next
  case (Suc k)
  from Suc.prems obtain out w1 outs1 where
    r: "playOneRound w = Some (out, w1)" and rs: "playRounds k w1 = Some (outs1, w')"
    and o: "outs = out # outs1"
    by (auto split: bind_splits)
  from Suc.IH [OF rs] playOneRound_scores [OF r] playOneRound_sum [OF r] o
  show ?case by simp
qed

lemma playRound_playRounds:
  "playRound w = Some w' \<Longrightarrow> roundCount w \<le> maxRounds \<Longrightarrow>
     \<exists>outs we. playRounds (nat (maxRounds - roundCount w)) w = Some (outs, we) \<and>
        roundCount we = maxRounds \<and> w' = endGame we"
proof (induction "nat (maxRounds - roundCount w)" arbitrary: w)
  case 0
  then have "roundCount w = maxRounds" by simp
  with "0.prems" "0.hyps" show ?case
    by (subst (asm) playRound.simps) auto
next
  case (Suc n)
  then have lt: "roundCount w < maxRounds" by simp
  with Suc.prems obtain out w1 where
    r: "playOneRound w = Some (out, w1)" and p: "playRound w1 = Some w'"
    by (subst (asm) playRound.simps) (auto split: bind_splits)
  from playOneRound_scores [OF r] have rc: "roundCount w1 = roundCount w + 1" by simp
  with Suc.hyps lt have "n = nat (maxRounds - roundCount w1)" "roundCount w1 \<le> maxRounds"
    by simp_all
  from Suc.hyps(1) [OF this(1) p this(2)] obtain outs we where
    "playRounds (nat (maxRounds - roundCount w1)) w1 = Some (outs, we)"
    "roundCount we = maxRounds" "w' = endGame we"
    by blast
  moreover from \<open>n = nat (maxRounds - roundCount w1)\<close> Suc.hyps(2)
  have "nat (maxRounds - roundCount w) = Suc (nat (maxRounds - roundCount w1))" by simp
  ultimately show ?case using r by simp
qed

lemma reenters_roundCount:
  "reenters w w' \<Longrightarrow> roundCount w < maxRounds \<and> roundCount w' = roundCount w + 1"
  by (auto simp: reenters_def split: option.splits dest: playOneRound_scores)

lemma nesting_bound:
  "nested (w # ws) \<Longrightarrow> 0 \<le> roundCount w \<Longrightarrow>
     length (w # ws) \<le> nat (maxRounds - roundCount w) + 1"
proof (induction ws arbitrary: w)
  case Nil
  then show ?case by simp
next
  case (Cons w' ws)
  from Cons.prems have re: "reenters w w'" and ch: "nested (w' # ws)"
    by (simp_all add: nested_def)
  from reenters_roundCount [OF re] have
    rc: "roundCount w < maxRounds" "roundCount w' = roundCount w + 1"
    by simp_all
  with Cons.prems have "0 \<le> roundCount w'" by simp
  from Cons.IH [OF ch this] rc show ?case by simp
qed



lemma playRound_after_rounds:
  "playRounds k w = Some (outs, wk) \<Longrightarrow> roundCount w + int k \<le> maxRounds \<Longrightarrow>
     playRound w = playRound wk"
proof (induction k arbitrary: w outs)
  case 0
  then show ?case by simp
next
  case (Suc k)
  from Suc.prems obtain out w1 outs1 where
    r: "playOneRound w = Some (out, w1)" and rs: "playRounds k w1 = Some (outs1, wk)"
    by (auto split: bind_splits)
  from playOneRound_scores [OF r] Suc.prems(2)
  have "roundCount w1 + int k \<le> maxRounds" "roundCount w < maxRounds"
    by simp_all
  from Suc.IH [OF rs this(1)] this(2) r show ?case
    by (subst playRound.simps) simp
qed


text \<open>Evaluation of a run on given inputs.\<close>

lemmas run_simps = playOneRound_def countdown.simps holdLoop.simps reactionLoop.simps
  playRound.simps startNewGame_def resetGame_def millis_def random_def
  debounceButton1_def debounceButton2_def debounceButton_def digitalRead_def
  serialReport_def level_def button1Pin_def button2Pin_def numLeds_def maxRounds_def
  serialPrintInterval_def powerOn_def endGame_fields





subsection \<open>Length of a match\<close>

text \<open>
  Claim C2. A match that startNewGame runs to its end has played exactly five rounds
  when endGame is entered: the result is endGame applied to the state after five rounds,
  whatever their outcomes, and roundCount is 5 there. After fewer than five rounds
  roundCount is the number of rounds played, below maxRounds, so that playRound, entered
  in that state, goes on to the same end.
\<close>

theorem match_counts_five_rounds:
  assumes "startNewGame w = Some w'"
  shows "(\<exists>outs we. playRounds 5 (resetGame w) = Some (outs, we) \<and> length outs = 5 \<and>
            roundCount we = 5 \<and> w' = endGame we) \<and>
         (\<forall>k outs wk. k < 5 \<and> playRounds k (resetGame w) = Some (outs, wk) \<longrightarrow>
            roundCount wk = int k \<and> roundCount wk < maxRounds \<and> playRound wk = Some w')"
proof (rule conjI)
  from assms have p: "playRound (resetGame w) = Some w'"
    by (simp add: startNewGame_def)
  have z: "roundCount (resetGame w) = 0" by (simp add: resetGame_def)
  from playRound_playRounds [OF p] z obtain outs we where
    rs: "playRounds 5 (resetGame w) = Some (outs, we)" and e: "roundCount we = maxRounds"
      "w' = endGame we"
    by (auto simp: maxRounds_def)
  from playRounds_scores [OF rs] e rs
  show "\<exists>outs we. playRounds 5 (resetGame w) = Some (outs, we) \<and> length outs = 5 \<and>
            roundCount we = 5 \<and> w' = endGame we"
    by (auto simp: maxRounds_def)
  show "\<forall>k outs wk. k < 5 \<and> playRounds k (resetGame w) = Some (outs, wk) \<longrightarrow>
            roundCount wk = int k \<and> roundCount wk < maxRounds \<and> playRound wk = Some w'"
  proof (intro allI impI, elim conjE)
    fix k outs wk
    assume k: "k < (5::nat)" and rk: "playRounds k (resetGame w) = Some (outs, wk)"
    from playRounds_scores [OF rk] z have "roundCount wk = int k" by simp
    moreover from k z have "roundCount (resetGame w) + int k \<le> maxRounds"
      by (simp add: maxRounds_def)
    from playRound_after_rounds [OF rk this] p have "playRound wk = Some w'" by simp
    ultimately show "roundCount wk = int k \<and> roundCount wk < maxRounds \<and> playRound wk = Some w'"
      using k by (simp add: maxRounds_def)
  qed
qed

theorem match_counts_five_rounds_witness:
  "\<exists>w' outs we. startNewGame matchA = Some w' \<and>
     playRounds 5 (resetGame matchA) = Some (outs, we) \<and> length outs = 5 \<and>
     roundCount we = 5 \<and> w' = endGame we"
proof -
  obtain w' where s: "startNewGame matchA = Some w'"
    by (simp add: matchA_def run_simps)
  from match_counts_five_rounds [OF s] obtain outs we where
    "playRounds 5 (resetGame matchA) = Some (outs, we)" "length outs = 5"
    "roundCount we = 5" "w' = endGame we"
    by blast
  with s show ?thesis by blast
qed


text \<open>
  Claim C9. With maxRounds = 5, a match that reaches endGame does so with scores that add
  up to 5, hence differ: the report of endGame is never the tie.
\<close>

theorem five_rounds_never_tie:
  assumes "startNewGame w = Some w'"
  shows "\<exists>we. w' = endGame we \<and> roundCount we = maxRounds \<and>
           player1Score we + player2Score we = 5 \<and>
           player1Score we \<noteq> player2Score we \<and>
           finalResult we \<noteq> ''It's a tie!'' \<and>
           player1Score w' \<noteq> player2Score w'"
proof -
  from assms have p: "playRound (resetGame w) = Some w'"
    by (simp add: startNewGame_def)
  have z: "roundCount (resetGame w) = 0" "player1Score (resetGame w) = 0"
    "player2Score (resetGame w) = 0"
    by (simp_all add: resetGame_def)
  from playRound_playRounds [OF p] z obtain outs we where
    rs: "playRounds 5 (resetGame w) = Some (outs, we)" and e: "roundCount we = maxRounds"
      "w' = endGame we"
    by (auto simp: maxRounds_def)
  from playRounds_scores [OF rs] z have sum: "player1Score we + player2Score we = 5"
    by simp
  then have ne: "player1Score we \<noteq> player2Score we" by presburger
  with finalResult_iff(3) [of we] have "finalResult we \<noteq> ''It's a tie!''" by simp
  with e sum ne show ?thesis
    by (intro exI [of _ we]) (simp add: endGame_fields)
qed

theorem five_rounds_never_tie_witness:
  "\<exists>w' we. startNewGame matchB = Some w' \<and> w' = endGame we \<and>
     player1Score we + player2Score we = 5 \<and> player1Score w' = 3 \<and> player2Score w' = 2"
proof -
  obtain w' where s: "startNewGame matchB = Some w'" and sc: "player1Score w' = 3"
    "player2Score w' = 2"
    by (simp add: matchB_def run_simps)
  from five_rounds_never_tie [OF s] obtain we where "w' = endGame we" "player1Score we + player2Score we = 5"
    by blast
  with s sc show ?thesis by blast
qed


subsection \<open>Early press\<close>

lemma ledWrites_append: "ledWrites (xs @ ys) = ledWrites xs @ ledWrites ys"
  by (induction xs rule: ledWrites.induct) simp_all

lemma debounceButton_ledWrites:
  "debounceButton pin ls pf w = Some (x, w') \<Longrightarrow> ledWrites (trace w') = ledWrites (trace w)"
  by (erule debounceButton_cases) (simp_all add: ledWrites_append)

lemma debounceButton1_ledWrites:
  assumes "debounceButton1 w = Some (r, w')"
  shows "ledWrites (trace w') = ledWrites (trace w)"
  using assms
  by (rule debounceButton1_SomeD) (simp add: debounceButton_ledWrites)

lemma debounceButton2_ledWrites:
  assumes "debounceButton2 w = Some (r, w')"
  shows "ledWrites (trace w') = ledWrites (trace w)"
  using assms
  by (rule debounceButton2_SomeD) (simp add: debounceButton_ledWrites)

lemma serialReport_ledWrites:
  "serialReport l a b w = Some w' \<Longrightarrow> ledWrites (trace w') = ledWrites (trace w)"
  by (erule serialReport_cases) (simp_all add: ledWrites_append)

lemma millis_trace: "millis w = Some (t, w') \<Longrightarrow> trace w' = trace w"
  by (auto dest!: millis_SomeD)

lemma player1Early_ledWrites: "ledWrites (trace (player1Early w)) = ledWrites (trace w)"
  by (simp add: player1Early_def Let_def updateDisplay_def displayScores_def ledWrites_append)

lemma player2Early_ledWrites: "ledWrites (trace (player2Early w)) = ledWrites (trace w)"
  by (simp add: player2Early_def Let_def updateDisplay_def displayScores_def ledWrites_append)

lemma early_inputs:
  "pinReads (player1Early w) = pinReads w" "clock (player1Early w) = clock w"
  "randoms (player1Early w) = randoms w"
  "pinReads (player2Early w) = pinReads w" "clock (player2Early w) = clock w"
  "randoms (player2Early w) = randoms w"
  by simp_all

lemma holdLoop_early_poll:
  assumes "millis w = Some (now, w1)" "now - startTime < delayTime"
    "debounceButton1 w1 = Some (b1, w2)" "debounceButton2 w2 = Some (b2, w3)"
    "serialReport (''Countdown LED '' @ String_int (int i + 1) @ '' - P1: '') b1 b2 w3 = Some w4"
    "b1 \<or> b2"
  shows "holdLoop i startTime delayTime w =
     Some (Some (if b1 then Player1EarlyPress else Player2EarlyPress),
           if b1 then player1Early w4 else player2Early w4)"
  using assms by (subst holdLoop.simps) auto

lemma countdown_early:
  assumes "i < numLeds" "millis w0 = Some (st, wr)" "random 500 2001 wr = Some (dt, wh)"
    "holdLoop i st (of_int dt) wh = Some (Some out, w')"
  shows "countdown i w0 = Some (Some out, w')"
  using assms by (subst countdown.simps) simp

lemma playOneRound_early:
  assumes "countdown 0 (roundStart w) = Some (Some out, w')"
  shows "playOneRound w = Some (out, w')"
  using assms by (simp add: playOneRound_def)


lemma holdHead_holdLoop:
  "holdHead n i st dt w = Some u \<Longrightarrow> holdLoop i st dt w = holdLoop i st dt u"
proof (induction n arbitrary: w)
  case 0
  then show ?case by simp
next
  case (Suc n)
  from Suc.prems obtain now w1 w2 w3 w4 where
    m: "millis w = Some (now, w1)" and lt: "now - st < dt"
    and d1: "debounceButton1 w1 = Some (False, w2)" and d2: "debounceButton2 w2 = Some (False, w3)"
    and sr: "serialReport (''Countdown LED '' @ String_int (int i + 1) @ '' - P1: '')
               False False w3 = Some w4"
    and h: "holdHead n i st dt w4 = Some u"
    by (auto split: bind_splits if_splits)
  from m lt d1 d2 sr have "holdLoop i st dt w = holdLoop i st dt w4"
    by (subst holdLoop.simps) simp
  with Suc.IH [OF h] show ?case by simp
qed

lemma holdHead_frame:
  "holdHead n i st dt w = Some u \<Longrightarrow>
     player1Score u = player1Score w \<and> player2Score u = player2Score w \<and>
     roundCount u = roundCount w \<and> ledWrites (trace u) = ledWrites (trace w)"
proof (induction n arbitrary: w)
  case 0
  then show ?case by simp
next
  case (Suc n)
  from Suc.prems obtain now w1 w2 w3 w4 where
    m: "millis w = Some (now, w1)"
    and d1: "debounceButton1 w1 = Some (False, w2)" and d2: "debounceButton2 w2 = Some (False, w3)"
    and sr: "serialReport (''Countdown LED '' @ String_int (int i + 1) @ '' - P1: '')
               False False w3 = Some w4"
    and h: "holdHead n i st dt w4 = Some u"
    by (auto split: bind_splits if_splits)
  from Suc.IH [OF h] millis_scores [OF m] poll_scores [OF d1 d2 sr] millis_trace [OF m]
    debounceButton1_ledWrites [OF d1] debounceButton2_ledWrites [OF d2]
    serialReport_ledWrites [OF sr]
  show ?case by simp
qed

lemma holdLoop_ledWrites:
  "holdLoop i st dt w = Some (res, w') \<Longrightarrow> ledWrites (trace w') = ledWrites (trace w)"
proof (induction "length (clock w)" arbitrary: w rule: less_induct)
  case less
  from less.prems show ?case
  proof (cases rule: holdLoop_cases)
    case (elapsed now)
    then show ?thesis using millis_trace by simp
  next
    case (early1 now w1 w2 b2 w3 w4)
    from millis_trace [OF early1(1)] debounceButton1_ledWrites [OF early1(3)]
      debounceButton2_ledWrites [OF early1(4)] serialReport_ledWrites [OF early1(5)] early1(7)
    show ?thesis by (simp add: player1Early_ledWrites)
  next
    case (early2 now w1 w2 w3 w4)
    from millis_trace [OF early2(1)] debounceButton1_ledWrites [OF early2(3)]
      debounceButton2_ledWrites [OF early2(4)] serialReport_ledWrites [OF early2(5)] early2(7)
    show ?thesis by (simp add: player2Early_ledWrites)
  next
    case (again now w1 w2 w3 w4)
    from again(1) have "length (clock w1) < length (clock w)"
      by (auto dest!: millis_SomeD)
    with poll_clock [OF again(3,4,5)] have "length (clock w4) < length (clock w)"
      by simp
    from less.hyps [OF this again(6)] millis_trace [OF again(1)]
      debounceButton1_ledWrites [OF again(3)]
      debounceButton2_ledWrites [OF again(4)] serialReport_ledWrites [OF again(5)]
    show ?thesis by simp
  qed
qed

lemma random_trace: "random lo hi w = Some (r, w') \<Longrightarrow> trace w' = trace w"
  by (auto dest!: random_SomeD)

lemma holdEntry_countdown:
  "holdEntry j i w = Some (st, dt, u0) \<Longrightarrow>
     j < numLeds \<and> i \<le> j \<and>
     player1Score u0 = player1Score w \<and> player2Score u0 = player2Score w \<and>
     roundCount u0 = roundCount w \<and>
     ledWrites (trace u0) = ledWrites (trace w) @ map (\<lambda>k. (ledPins ! k, LOW)) [i..<j] \<and>
     (\<forall>out w'. holdLoop j st dt u0 = Some (Some out, w') \<longrightarrow>
        countdown i w = Some (Some out, w'))"
proof (induction "numLeds - i" arbitrary: i w rule: less_induct)
  case less
  from less.prems have lt: "i < numLeds"
    by (subst (asm) holdEntry.simps) (auto split: if_splits)
  with less.prems obtain s w1 d w2 where
    m: "millis w = Some (s, w1)" and r: "random 500 2001 w1 = Some (d, w2)"
    by (subst (asm) holdEntry.simps) (auto split: bind_splits)
  note fr = millis_scores [OF m] random_scores [OF r] millis_trace [OF m] random_trace [OF r]
  show ?case
  proof (cases "i = j")
    case True
    with less.prems lt m r have e: "st = s" "dt = of_int d" "u0 = w2"
      by (subst (asm) holdEntry.simps, simp)+
    have "\<forall>out w'. holdLoop j st dt u0 = Some (Some out, w') \<longrightarrow>
        countdown i w = Some (Some out, w')"
    proof (intro allI impI)
      fix out w'
      assume "holdLoop j st dt u0 = Some (Some out, w')"
      with True lt m r e show "countdown i w = Some (Some out, w')"
        by (subst countdown.simps) simp
    qed
    with True lt e fr show ?thesis by simp
  next
    case False
    with less.prems lt m r obtain w3 where
      h: "holdLoop i s (of_int d) w2 = Some (None, w3)"
      and e: "holdEntry j (i + 1)
                (emit (SerialPrintln (''LED '' @ String_int (int i + 1) @ '' turned off''))
                   (digitalWrite (ledPins ! i) LOW w3)) = Some (st, dt, u0)"
      by (subst (asm) holdEntry.simps) (auto split: bind_splits option.splits)
    let ?w = "emit (SerialPrintln (''LED '' @ String_int (int i + 1) @ '' turned off''))
                   (digitalWrite (ledPins ! i) LOW w3)"
    from lt have "numLeds - (i + 1) < numLeds - i" by simp
    from less.hyps [OF this e] have
      ih: "j < numLeds" "i + 1 \<le> j"
        "player1Score u0 = player1Score ?w" "player2Score u0 = player2Score ?w"
        "roundCount u0 = roundCount ?w"
        "ledWrites (trace u0) = ledWrites (trace ?w) @ map (\<lambda>k. (ledPins ! k, LOW)) [i + 1..<j]"
        "\<forall>out w'. holdLoop j st dt u0 = Some (Some out, w') \<longrightarrow>
           countdown (i + 1) ?w = Some (Some out, w')"
      by simp_all
    from lt m r h have c: "countdown i w = countdown (i + 1) ?w"
      by (subst countdown.simps) simp
    from holdLoop_scores [OF h] have sc: "player1Score w3 = player1Score w2"
      "player2Score w3 = player2Score w2" "roundCount w3 = roundCount w2"
      by simp_all
    from ih(2) have up: "[i..<j] = i # [i + 1..<j]"
      by (simp add: upt_conv_Cons)
    from ih c sc fr holdLoop_ledWrites [OF h] up show ?thesis
      by (simp add: ledWrites_append)
  qed
qed


text \<open>
  Claim C4, as the code has it. Take any poll of the countdown of a round: the countdown
  has entered the hold of LED \<open>j\<close> and stands at the head of the while loop after \<open>n\<close>
  polls of that hold. If a button value is set at this poll, the round ends there, with
  the early-press outcome of player 1 when player 1's value is set (whether or not player
  2's is), otherwise of player 2: the score of that player's opponent is one more than at
  the entry of the round, the other score is unchanged, roundCount is the one count of
  this invocation, both latched flags are cleared, and the state in which the round ends
  is the state of the early-press branch, so that no input is read after the poll (the
  reaction phase is not entered) and the LEDs written LOW in the round are those before
  \<open>j\<close> only.
\<close>

theorem early_press_abandons_round:
  assumes "holdEntry j 0 (roundStart w) = Some (startTime, delayTime, u0)"
    and "holdHead n j startTime delayTime u0 = Some u"
    and "millis u = Some (now, u1)" and "now - startTime < delayTime"
    and "debounceButton1 u1 = Some (b1, u2)" and "debounceButton2 u2 = Some (b2, u3)"
    and "serialReport (''Countdown LED '' @ String_int (int j + 1) @ '' - P1: '') b1 b2 u3
           = Some u4"
    and "b1 \<or> b2"
  shows "\<exists>w'. w' = (if b1 then player1Early u4 else player2Early u4) \<and>
           playOneRound w = Some (if b1 then Player1EarlyPress else Player2EarlyPress, w') \<and>
           holdLoop j startTime delayTime u
             = Some (Some (if b1 then Player1EarlyPress else Player2EarlyPress), w') \<and>
           player1Score w' = player1Score w + (if b1 then 0 else 1) \<and>
           player2Score w' = player2Score w + (if b1 then 1 else 0) \<and>
           roundCount w' = roundCount w + 1 \<and>
           button1Pressed w' = False \<and> button2Pressed w' = False \<and>
           pinReads w' = pinReads u4 \<and> clock w' = clock u4 \<and> randoms w' = randoms u4 \<and>
           j < numLeds \<and>
           ledWrites (trace w')
             = ledWrites (trace (roundStart w)) @ map (\<lambda>k. (ledPins ! k, LOW)) [0..<j]"
proof -
  let ?out = "if b1 then Player1EarlyPress else Player2EarlyPress"
  let ?w' = "if b1 then player1Early u4 else player2Early u4"
  have h: "holdLoop j startTime delayTime u = Some (Some ?out, ?w')"
    using assms(3-8) by (rule holdLoop_early_poll)
  with holdHead_holdLoop [OF assms(2)]
  have h0: "holdLoop j startTime delayTime u0 = Some (Some ?out, ?w')" by simp
  note e = holdEntry_countdown [OF assms(1)]
  from e h0 have "countdown 0 (roundStart w) = Some (Some ?out, ?w')" by blast
  then have r: "playOneRound w = Some (?out, ?w')" by (rule playOneRound_early)
  have sc: "player1Score u4 = player1Score u" "player2Score u4 = player2Score u"
    "roundCount u4 = roundCount u"
    using millis_scores [OF assms(3)] poll_scores [OF assms(5,6,7)] by simp_all
  have lw: "ledWrites (trace u4) = ledWrites (trace u)"
    using millis_trace [OF assms(3)] debounceButton1_ledWrites [OF assms(5)]
      debounceButton2_ledWrites [OF assms(6)] serialReport_ledWrites [OF assms(7)]
    by simp
  from e holdHead_frame [OF assms(2)] have
    u: "player1Score u = player1Score w" "player2Score u = player2Score w"
       "roundCount u = roundCount w + 1" "j < numLeds"
       "ledWrites (trace u)
          = ledWrites (trace (roundStart w)) @ map (\<lambda>k. (ledPins ! k, LOW)) [0..<j]"
    by simp_all
  from r h sc lw u show ?thesis
    by (intro exI [of _ ?w']) (simp add: player1Early_ledWrites player2Early_ledWrites)
qed

theorem early_press_abandons_round_witness:
  "\<exists>w'. playOneRound late = Some (Player2EarlyPress, w') \<and>
      player1Score w' = 1 \<and> player2Score w' = 0 \<and> roundCount w' = 1 \<and>
      button1Pressed w' = False \<and> button2Pressed w' = False \<and>
      pinReads w' = [] \<and> clock w' = [] \<and>
      ledWrites (trace w') = ledWrites (trace (roundStart late)) @ [(7, LOW)]"
proof -
  let ?l = "''Countdown LED '' @ String_int (int (Suc 0) + 1) @ '' - P1: ''"
  obtain u0 u u1 u2 u3 u4 where p:
      "holdEntry (Suc 0) 0 (roundStart late) = Some (601, 507, u0)"
      "holdHead (Suc 0) (Suc 0) 601 507 u0 = Some u"
      "millis u = Some (800, u1)"
      "debounceButton1 u1 = Some (False, u2)" "debounceButton2 u2 = Some (True, u3)"
      "serialReport ?l False True u3 = Some u4"
    and f: "pinReads u4 = []" "clock u4 = []"
    by (simp add: late_def run_simps holdEntry.simps)
  have lt: "(800 :: 32 word) - 601 < 507" by simp
  have z: "player1Score late = 0" "player2Score late = 0" "roundCount late = 0"
    by (simp_all add: late_def powerOn_def)
  from early_press_abandons_round [OF p(1) p(2) p(3) lt p(4) p(5) p(6)] f z
  show ?thesis by (simp add: ledPins_def)
qed


lemmas hold_simps = hold0_def hold1_def hold2_def hold3_def hold4_def millis_def
  debounceButton1_def debounceButton2_def debounceButton_def digitalRead_def
  serialReport_def level_def button1Pin_def button2Pin_def debounceDelay_def
  serialPrintInterval_def powerOn_def delay_def emit_def


text \<open>
  The claim as stated, for either player, fails when both values are set at the same
  poll: player 2's latch has fired, yet the outcome is player 1's early press, and the
  point goes to player 2, not to player 2's opponent.
\<close>

theorem simultaneous_early_press_charged_to_player1:
  "millis hold0 = Some (100, hold1) \<and>
   debounceButton1 hold1 = Some (True, hold2) \<and>
   debounceButton2 hold2 = Some (True, hold3) \<and>
   serialReport (''Countdown LED '' @ String_int (int 0 + 1) @ '' - P1: '') True True hold3
     = Some hold4 \<and>
   holdLoop 0 0 500 hold0 = Some (Some Player1EarlyPress, player1Early hold4) \<and>
   player1Score (player1Early hold4) = player1Score hold0 \<and>
   player2Score (player1Early hold4) = player2Score hold0 + 1"
  by (simp add: holdLoop.simps hold_simps)


text \<open>
  Claim C5. A round that ends in an early press stays counted once: the early-press
  branches do not touch roundCount, which after the round is one more than at the entry of
  the invocation; the re-entry of playRound is an invocation like any other, which ends
  the match when roundCount has reached maxRounds and otherwise counts the next round,
  once.
\<close>

theorem early_press_round_counted_once:
  assumes "playOneRound w = Some (out, w')" "out = Player1EarlyPress \<or> out = Player2EarlyPress"
  shows "roundCount w' = roundCount w + 1 \<and>
         roundCount (player1Early x) = roundCount x \<and>
         roundCount (player2Early x) = roundCount x \<and>
         (roundCount w < maxRounds \<longrightarrow> playRound w = playRound w') \<and>
         (maxRounds \<le> roundCount w' \<longrightarrow> playRound w' = Some (endGame w')) \<and>
         (playOneRound w' = Some (out2, w2) \<longrightarrow> roundCount w2 = roundCount w + 2)"
proof (intro conjI impI)
  from playOneRound_scores [OF assms(1)] show rc: "roundCount w' = roundCount w + 1" by simp
  show "roundCount (player1Early x) = roundCount x" "roundCount (player2Early x) = roundCount x"
    by simp_all
  {
    assume "roundCount w < maxRounds"
    with assms(1) show "playRound w = playRound w'"
      by (subst playRound.simps) simp
  }
  {
    assume "maxRounds \<le> roundCount w'"
    then show "playRound w' = Some (endGame w')"
      by (subst playRound.simps) simp
  }
  {
    assume "playOneRound w' = Some (out2, w2)"
    from playOneRound_scores [OF this] rc show "roundCount w2 = roundCount w + 2" by simp
  }
qed

theorem early_press_round_counted_once_witness:
  "\<exists>w' w2. playOneRound (resetGame matchA) = Some (Player1EarlyPress, w') \<and>
     roundCount w' = 1 \<and> playRound (resetGame matchA) = playRound w' \<and>
     playOneRound w' = Some (Player2EarlyPress, w2) \<and> roundCount w2 = 2"
proof -
  obtain w' w2 where r: "playOneRound (resetGame matchA) = Some (Player1EarlyPress, w')"
    and r2: "playOneRound w' = Some (Player2EarlyPress, w2)"
    by (simp add: matchA_def run_simps)
  have z: "roundCount (resetGame matchA) = 0" by (simp add: resetGame_def)
  from early_press_round_counted_once [OF r, where ?out2.0 = Player2EarlyPress and ?w2.0 = w2] r r2 z
  show ?thesis by (simp add: maxRounds_def)
qed


subsection \<open>Reaction phase\<close>

text \<open>
  Claim C6. At a poll of the reaction phase at which both button values are set, the
  round goes to player 1: player1Score is one more and player2Score is unchanged. A
  reaction phase that ends gives the point to exactly one player, never to both or none.
\<close>

theorem simultaneous_reaction_favours_player1:
  "(debounceButton1 w = Some (True, w1) \<and> debounceButton2 w1 = Some (True, w2) \<and>
    serialReport ''Reaction Phase - P1: '' True True w2 = Some w3 \<longrightarrow>
      reactionLoop w = Some (Player1Reacted, player1Won w3) \<and>
      player1Score (player1Won w3) = player1Score w + 1 \<and>
      player2Score (player1Won w3) = player2Score w) \<and>
   (reactionLoop v = Some (out, v') \<longrightarrow>
      (out = Player1Reacted \<and> player1Score v' = player1Score v + 1 \<and>
         player2Score v' = player2Score v) \<or>
      (out = Player2Reacted \<and> player1Score v' = player1Score v \<and>
         player2Score v' = player2Score v + 1))"
proof (rule conjI; rule impI)
  assume a: "debounceButton1 w = Some (True, w1) \<and> debounceButton2 w1 = Some (True, w2) \<and>
    serialReport ''Reaction Phase - P1: '' True True w2 = Some w3"
  then have "reactionLoop w = Some (Player1Reacted, player1Won w3)"
    by (subst reactionLoop.simps) simp
  moreover from a have "player1Score w3 = player1Score w \<and> player2Score w3 = player2Score w"
    using poll_scores [of w True w1 True w2 "''Reaction Phase - P1: ''" w3] by simp
  ultimately show "reactionLoop w = Some (Player1Reacted, player1Won w3) \<and>
      player1Score (player1Won w3) = player1Score w + 1 \<and>
      player2Score (player1Won w3) = player2Score w"
    by simp
next
  assume "reactionLoop v = Some (out, v')"
  from reactionLoop_scores [OF this]
  show "(out = Player1Reacted \<and> player1Score v' = player1Score v + 1 \<and>
         player2Score v' = player2Score v) \<or>
      (out = Player2Reacted \<and> player1Score v' = player1Score v \<and>
         player2Score v' = player2Score v + 1)"
    by (auto simp: award_def)
qed

theorem simultaneous_reaction_favours_player1_witness:
  "\<exists>w1 w2 w3. debounceButton1 bothDown = Some (True, w1) \<and>
      debounceButton2 w1 = Some (True, w2) \<and>
      serialReport ''Reaction Phase - P1: '' True True w2 = Some w3 \<and>
      reactionLoop bothDown = Some (Player1Reacted, player1Won w3) \<and>
      player1Score (player1Won w3) = 2 \<and> player2Score (player1Won w3) = 1"
proof -
  obtain w1 w2 w3 where p: "debounceButton1 bothDown = Some (True, w1)"
      "debounceButton2 w1 = Some (True, w2)"
      "serialReport ''Reaction Phase - P1: '' True True w2 = Some w3"
    by (simp add: bothDown_def run_simps)
  have sc: "player1Score bothDown = 1" "player2Score bothDown = 1"
    by (simp_all add: bothDown_def)
  from simultaneous_reaction_favours_player1 [where w = bothDown and ?w1.0 = w1 and ?w2.0 = w2 and ?w3.0 = w3
             and v = bothDown and out = Player1Reacted and v' = "player1Won w3"] p sc
  show ?thesis by simp
qed


subsection \<open>Start of a match\<close>

lemmas idle_simps = loop_def loopSample_def startCondition_def millis_def
  debounceButton1_def debounceButton2_def debounceButton_def digitalRead_def
  serialReport_def level_def button1Pin_def button2Pin_def debounceDelay_def
  serialPrintInterval_def powerOn_def delay_def emit_def

lemma loopSample_flags:
  assumes "loopSample w = Some (b1, b2, w')"
  shows "b1 = button1Pressed w' \<and> b2 = button2Pressed w' \<and> gameActive w' = gameActive w"
proof -
  from assms obtain w1 w2 where
    d1: "debounceButton1 w = Some (b1, w1)" and d2: "debounceButton2 w1 = Some (b2, w2)"
    and sr: "serialReport ''Main Loop - P1: '' b1 b2 w2 = Some w'"
    by (auto simp: loopSample_def split: bind_splits)
  from debounceButton1_frame [OF d1] debounceButton2_frame [OF d2] serialReport_frame [OF sr]
  show ?thesis by simp
qed


text \<open>
  Claim C3, as the code has it. While the game is inactive, the condition of line 69 holds
  exactly when both latched-press flags are set after the two samples of that pass: the
  values that debounceButton returns are the flags, not the stable states. loop then
  enters the game, and otherwise returns.
\<close>

theorem start_when_both_latched:
  assumes "loopSample w = Some (b1, b2, w')" "\<not> gameActive w"
  shows "b1 = button1Pressed w' \<and> b2 = button2Pressed w' \<and>
         startCondition w' b1 b2 = (button1Pressed w' \<and> button2Pressed w') \<and>
         loop w = (if button1Pressed w' \<and> button2Pressed w' then enterGame w' else Some w')"
  using loopSample_flags [OF assms(1)] assms
  by (simp add: loop_def startCondition_def)

theorem start_when_both_latched_witness:
  "loopSample idle2 = Some (True, True, idle3) \<and> \<not> gameActive idle2 \<and>
   startCondition idle3 True True \<and> loop idle2 = enterGame idle3 \<and>
   loopSample idle1 = Some (True, False, idle2) \<and> \<not> startCondition idle2 True False \<and>
   loop idle1 = Some idle2"
proof -
  have a: "loopSample idle2 = Some (True, True, idle3)" "\<not> gameActive idle2"
    by (simp_all add: idle2_def idle3_def idle_simps)
  have b: "loopSample idle1 = Some (True, False, idle2)" "\<not> gameActive idle1"
    by (simp_all add: idle1_def idle2_def idle_simps)
  from start_when_both_latched [OF a] start_when_both_latched [OF b] a b show ?thesis
    by (simp add: idle2_def idle3_def powerOn_def)
qed


text \<open>
  The claim as stated, with the stable states in place of the flags, fails: after player 1
  has pressed and released, a press of player 2 alone starts the game, with the stable
  state of button 1 LOW.
\<close>

theorem start_without_simultaneous_press:
  "loop idle0 = Some idle1 \<and> loop idle1 = Some idle2 \<and>
   loopSample idle2 = Some (True, True, idle3) \<and> \<not> gameActive idle2 \<and>
   startCondition idle3 True True \<and>
   \<not> (lastButton1State idle3 \<and> lastButton2State idle3)"
  by (simp add: idle0_def idle1_def idle2_def idle3_def idle_simps)


subsection \<open>Nesting of playRound\<close>

lemma invocations_hd: "\<exists>ws. invocations k w = w # ws"
  by (cases k) simp_all

lemma nested_invocations: "nested (invocations k w)"
proof (induction k arbitrary: w)
  case 0
  then show ?case by (simp add: nested_def)
next
  case (Suc k)
  show ?case
  proof (cases "roundCount w < maxRounds")
    case False
    then show ?thesis by (simp add: nested_def)
  next
    case lt: True
    show ?thesis
    proof (cases "playOneRound w")
      case None
      with lt show ?thesis by (simp add: nested_def)
    next
      case (Some r)
      obtain out w' where r: "r = (out, w')" by (cases r)
      from invocations_hd obtain ws where ws: "invocations k w' = w' # ws" by blast
      from Suc.IH [of w'] ws have "successively reenters (w' # ws)"
        by (simp add: nested_def)
      moreover from lt Some r have "reenters w w'" by (simp add: reenters_def)
      ultimately show ?thesis using lt Some r ws by (simp add: nested_def)
    qed
  qed
qed


text \<open>
  Claim C10. An invocation of playRound whose guard holds ends the match at once, and
  any other runs one round, which adds exactly one to roundCount, before it re-enters
  playRound. Hence a stack of nested invocations whose outermost was entered with
  roundCount \<open>r \<ge> 0\<close> holds at most \<open>maxRounds - r + 1\<close> invocations, at most
  \<open>maxRounds + 1\<close> in a match.
\<close>

theorem playRound_nesting_bounded:
  "(maxRounds \<le> roundCount w \<longrightarrow> playRound w = Some (endGame w)) \<and>
   (roundCount w < maxRounds \<longrightarrow>
      playRound w = (case playOneRound w of None \<Rightarrow> None | Some (out, w1) \<Rightarrow> playRound w1)) \<and>
   (playOneRound w = Some (out, wn) \<longrightarrow> roundCount wn = roundCount w + 1) \<and>
   (nested (v # vs) \<and> 0 \<le> roundCount v \<longrightarrow>
      length (v # vs) \<le> nat (maxRounds - roundCount v) + 1 \<and>
      length (v # vs) \<le> nat maxRounds + 1)"
proof (intro conjI impI)
  assume "maxRounds \<le> roundCount w"
  then show "playRound w = Some (endGame w)"
    by (subst playRound.simps) simp
next
  assume "roundCount w < maxRounds"
  then show "playRound w = (case playOneRound w of None \<Rightarrow> None | Some (out, w1) \<Rightarrow> playRound w1)"
    by (subst playRound.simps) (simp split: option.splits)
next
  assume "playOneRound w = Some (out, wn)"
  from playOneRound_scores [OF this] show "roundCount wn = roundCount w + 1" by simp
next
  assume a: "nested (v # vs) \<and> 0 \<le> roundCount v"
  with nesting_bound [of v vs]
  show "length (v # vs) \<le> nat (maxRounds - roundCount v) + 1" by simp
  with a show "length (v # vs) \<le> nat maxRounds + 1" by arith
qed

theorem playRound_nesting_bounded_witness:
  "nested (invocations (Suc (Suc (Suc (Suc (Suc (Suc (Suc 0))))))) (resetGame matchA)) \<and>
   length (invocations (Suc (Suc (Suc (Suc (Suc (Suc (Suc 0))))))) (resetGame matchA)) = 6 \<and>
   playRound ((resetGame matchA)\<lparr>roundCount := 5\<rparr>)
     = Some (endGame ((resetGame matchA)\<lparr>roundCount := 5\<rparr>)) \<and>
   (\<exists>w1. playOneRound (resetGame matchA) = Some (Player1EarlyPress, w1) \<and> roundCount w1 = 1 \<and>
      playRound (resetGame matchA) = playRound w1)"
proof -
  let ?k = "Suc (Suc (Suc (Suc (Suc (Suc (Suc 0))))))"
  obtain vs where len: "invocations ?k (resetGame matchA) = resetGame matchA # vs"
    and l6: "length (resetGame matchA # vs) = 6"
    by (simp add: matchA_def run_simps)
  have n: "nested (resetGame matchA # vs)"
    using nested_invocations [of ?k "resetGame matchA"] len by simp
  have z: "roundCount (resetGame matchA) = 0" by (simp add: resetGame_def)
  have five: "maxRounds \<le> roundCount ((resetGame matchA)\<lparr>roundCount := 5\<rparr>)"
    by (simp add: maxRounds_def)
  obtain w1 where r: "playOneRound (resetGame matchA) = Some (Player1EarlyPress, w1)"
    by (simp add: matchA_def run_simps)
  from n z five r len l6
    playRound_nesting_bounded [where w = "(resetGame matchA)\<lparr>roundCount := 5\<rparr>"]
    playRound_nesting_bounded [where w = "resetGame matchA" and out = Player1EarlyPress and wn = w1
           and v = "resetGame matchA" and vs = vs]
  show ?thesis by (simp add: maxRounds_def)
qed


end
